theory Spec2Isabelle
  imports Complex_Main
begin

section \<open>Shared data: doubles, headers, faults\<close>

text \<open>
  A C++ \<^verbatim>\<open>double\<close> as far as the controller looks at it: a finite value, one of the
  two infinities, or NaN. The controller never does arithmetic on a double; it stores
  the constant 0.0, compares with \<^verbatim>\<open>>\<close> and asks \<^verbatim>\<open>std::isfinite\<close>.
\<close>

datatype double = Finite rat | PosInf | NegInf | NaN

fun isfinite :: "double \<Rightarrow> bool" where
  "isfinite (Finite _) = True"
| "isfinite _ = False"

text \<open>The C++ operator \<^verbatim>\<open>a > b\<close> on doubles: every comparison with NaN is false.\<close>

fun double_gt :: "double \<Rightarrow> double \<Rightarrow> bool" where
  "double_gt (Finite a) (Finite b) = (b < a)"
| "double_gt (Finite _) NegInf = True"
| "double_gt PosInf (Finite _) = True"
| "double_gt PosInf NegInf = True"
| "double_gt _ _ = False"

text \<open>\<^verbatim>\<open>const double MAX_DT = 0.5;\<close>\<close>

definition MAX_DT :: double where
  "MAX_DT = Finite (1 / 2)"

text \<open>
  Reading \<^verbatim>\<open>v[i]\<close> of a \<^verbatim>\<open>std::vector\<close> with \<^verbatim>\<open>i >= v.size()\<close> is undefined
  behaviour in C++, and so is an Eigen product whose dimensions do not fit. The model
  makes both an explicit fault.
\<close>

datatype fault = OutOfRange | DimensionMismatch

text \<open>\<^verbatim>\<open>std_msgs/Header\<close>: the stamp is a time in nanoseconds.\<close>

record header =
  stamp :: nat
  frame_id :: string

definition empty_header :: header where
  "empty_header = \<lparr>stamp = 0, frame_id = []\<rparr>"

section \<open>Controller lifecycle (controller\_template.hpp)\<close>

subsection \<open>Data\<close>

text \<open>\<^verbatim>\<open>sensor_msgs::JointState\<close>: four arrays whose lengths the type does not tie together.\<close>

record jointState =
  js_header :: header
  name :: "string list"
  position :: "double list"
  velocity :: "double list"
  effort :: "double list"

definition empty_jointState :: jointState where
  "empty_jointState =
     \<lparr>js_header = empty_header, name = [], position = [], velocity = [], effort = []\<rparr>"

text \<open>
  The Goal Channel. \<^verbatim>\<open>actionlib::SimpleActionServer\<close> is an external library; the
  controller uses five of its operations (accept, is active, publish feedback, set
  aborted, set preempted). Its state is the status of the current goal: a goal is active
  while it is being pursued or while a cancel request for it is pending, and a terminal
  report is accepted only for an active goal.
\<close>

datatype goal_status = NO_GOAL | ACTIVE | PREEMPTING | PREEMPTED | ABORTED | SUCCEEDED

definition server_isActive :: "goal_status \<Rightarrow> bool" where
  "server_isActive s = (s = ACTIVE \<or> s = PREEMPTING)"

definition server_acceptNewGoal :: "goal_status \<Rightarrow> goal_status" where
  "server_acceptNewGoal s = ACTIVE"

definition server_setAborted :: "goal_status \<Rightarrow> goal_status" where
  "server_setAborted s = (if server_isActive s then ABORTED else s)"

definition server_setPreempted :: "goal_status \<Rightarrow> goal_status" where
  "server_setPreempted s = (if server_isActive s then PREEMPTED else s)"

text \<open>
  What a call leaves behind besides its result and the new state: the calls to the Goal
  Channel, to the three hooks of the derived class, and the log lines, in program order.
  The throttled debug line of \<^verbatim>\<open>updateControl\<close> is not recorded.
\<close>

datatype event =
    Call_acceptNewGoal
  | Call_setAborted
  | Call_setPreempted
  | Call_publishFeedback
  | Call_controlAlgorithm
  | Call_parseGoal
  | Call_resetController
  | Error_no_updates           \<comment> \<open>"did not receive updates for more than MAX\_DT seconds, aborting"\<close>
  | Error_invalid_joint_states \<comment> \<open>"Invalid joint states in ..."\<close>
  | Warn_invalid_state         \<comment> \<open>"lastState got invalid state"\<close>
  | Warn_preempted             \<comment> \<open>"... preempted!"\<close>
  | Info_new_goal              \<comment> \<open>"New goal received in ..."\<close>
  | Info_initialized           \<comment> \<open>"... initialized successfully!"\<close>

text \<open>
  The members of \<^verbatim>\<open>ControllerTemplate\<close>. \<open>derived\<close> is the state of the class that
  implements the hooks (with \<^verbatim>\<open>feedback_\<close> and \<^verbatim>\<open>result_\<close>, which only that class
  fills in); \<open>events\<close> is the trace described above.
\<close>

record 'c controllerTemplate =
  action_server :: goal_status
  last_state :: jointState
  has_state :: bool
  acquired_goal :: bool
  derived :: 'c
  events :: "event list"

text \<open>
  The pure virtual methods. \<^verbatim>\<open>controlAlgorithm\<close> returns the desired state; it may
  change the derived class and may end the goal through the (protected) action server,
  which is why \<^verbatim>\<open>updateControl\<close> asks \<^verbatim>\<open>isActive\<close> again after it. The private
  members \<^verbatim>\<open>last_state_\<close>, \<^verbatim>\<open>has_state_\<close> and \<^verbatim>\<open>acquired_goal_\<close> are out of its reach. (A name
  cannot end in an underscore here, so the members are written without it.)
\<close>

record ('c, 'g) hooks =
  controlAlgorithm :: "'c \<Rightarrow> goal_status \<Rightarrow> jointState \<Rightarrow> double \<Rightarrow> jointState \<times> 'c \<times> goal_status"
  parseGoal :: "'c \<Rightarrow> 'g \<Rightarrow> bool \<times> 'c"
  resetController :: "'c \<Rightarrow> 'c"

definition emit :: "event \<Rightarrow> 'c controllerTemplate \<Rightarrow> 'c controllerTemplate" where
  "emit e c = c\<lparr>events := events c @ [e]\<rparr>"

subsection \<open>Operations\<close>

definition resetFlags :: "'c controllerTemplate \<Rightarrow> 'c controllerTemplate" where
  "resetFlags c = c\<lparr>has_state := False, acquired_goal := False\<rparr>"

definition resetInternalState :: "('c, 'g) hooks \<Rightarrow> 'c controllerTemplate \<Rightarrow> 'c controllerTemplate" where
  "resetInternalState h c =
     (let c1 = resetFlags c
      in emit Call_resetController (c1\<lparr>derived := resetController h (derived c1)\<rparr>))"

text \<open>The constructor: \<^verbatim>\<open>resetFlags(); startActionlib();\<close> on default-initialised members.\<close>

definition ControllerTemplate :: "'c \<Rightarrow> 'c controllerTemplate" where
  "ControllerTemplate d =
     emit Info_initialized
       (resetFlags \<lparr>action_server = NO_GOAL, last_state = empty_jointState,
          has_state = False, acquired_goal = False, derived = d, events = []\<rparr>)"

definition isActive :: "'c controllerTemplate \<Rightarrow> bool" where
  "isActive c = (if \<not> server_isActive (action_server c) then False else True)"

text \<open>
  The loop of \<^verbatim>\<open>lastState\<close>:
  \<^verbatim>\<open>for (i = 0; i < last_state_.velocity.size(); i++) last_state_.velocity[i] = 0.0;\<close>
\<close>

function zero_velocity :: "double list \<Rightarrow> nat \<Rightarrow> double list" where
  "zero_velocity v i = (if i < length v then zero_velocity (v[i := Finite 0]) (i + 1) else v)"
  by pat_completeness auto
termination
  by (relation "measure (\<lambda>(v, i). length v - i)") auto

declare zero_velocity.simps [simp del]

definition lastState :: "'c controllerTemplate \<Rightarrow> jointState \<Rightarrow> jointState \<times> 'c controllerTemplate" where
  "lastState c current =
     (if length (position current) = 0 then
        (let c1 = emit Warn_invalid_state c in (last_state c1, c1))
      else if \<not> has_state c then
        (let c1 = c\<lparr>last_state := current\<rparr>;
             c2 = c1\<lparr>last_state := (last_state c1)\<lparr>velocity := zero_velocity (velocity (last_state c1)) 0\<rparr>\<rparr>;
             c3 = c2\<lparr>has_state := True\<rparr>
         in (last_state c3, c3))
      else (last_state c, c))"

text \<open>
  The sanity loop of \<^verbatim>\<open>updateControl\<close>, from index \<open>i\<close> on:
  \<^verbatim>\<open>for (i = 0; i < ret.name.size(); i++)
    if (!std::isfinite(ret.position[i]) || !std::isfinite(ret.velocity[i])) return lastState(...);\<close>
  \<open>Inr True\<close>: the loop ran to its end; \<open>Inr False\<close>: it found a non-finite value and
  left; \<open>Inl OutOfRange\<close>: it read past the end of an array. The \<^verbatim>\<open>||\<close> reads the
  velocity only when the position is finite.
\<close>

function verify_sanity :: "jointState \<Rightarrow> nat \<Rightarrow> fault + bool" where
  "verify_sanity ret i =
     (if i < length (name ret) then
        (if length (position ret) \<le> i then Inl OutOfRange
         else if \<not> isfinite (position ret ! i) then Inr False
         else if length (velocity ret) \<le> i then Inl OutOfRange
         else if \<not> isfinite (velocity ret ! i) then Inr False
         else verify_sanity ret (i + 1))
      else Inr True)"
  by pat_completeness auto
termination
  by (relation "measure (\<lambda>(ret, i). length (name ret) - i)") auto

declare verify_sanity.simps [simp del]

text \<open>
  \<^verbatim>\<open>updateControl\<close>. \<open>dt\<close> is the value of \<^verbatim>\<open>dt.toSec()\<close>. The result is the returned
  state, or the fault at which the sanity loop left defined behaviour, with the
  controller as it is at that point.
\<close>

definition updateControl ::
  "('c, 'g) hooks \<Rightarrow> 'c controllerTemplate \<Rightarrow> jointState \<Rightarrow> double
     \<Rightarrow> (fault + jointState) \<times> 'c controllerTemplate" where
  "updateControl h c current_state dt =
     (if \<not> server_isActive (action_server c) \<or> \<not> acquired_goal c then
        (let (r, c1) = lastState c current_state in (Inr r, c1))
      else if double_gt dt MAX_DT then
        (let c1 = emit Error_no_updates c;
             c2 = emit Call_setAborted (c1\<lparr>action_server := server_setAborted (action_server c1)\<rparr>);
             (r, c3) = lastState c2 current_state
         in (Inr r, c3))
      else
        (let (ret, d, s) = controlAlgorithm h (derived c) (action_server c) current_state dt;
             c1 = emit Call_controlAlgorithm (c\<lparr>derived := d, action_server := s\<rparr>);
             c2 = emit Call_publishFeedback c1;
             c3 = (if \<not> server_isActive (action_server c2) then resetInternalState h c2 else c2)
         in case verify_sanity ret 0 of
              Inl f \<Rightarrow> (Inl f, c3)
            | Inr False \<Rightarrow>
                (let c4 = emit Error_invalid_joint_states c3;
                     (r, c5) = lastState c4 current_state
                 in (Inr r, c5))
            | Inr True \<Rightarrow> (Inr ret, c3)))"

text \<open>
  \<^verbatim>\<open>goalCB\<close>, run by the Goal Channel when a goal arrives; \<open>goal\<close> is the payload
  \<^verbatim>\<open>acceptNewGoal()\<close> hands out.
\<close>

definition goalCB :: "('c, 'g) hooks \<Rightarrow> 'c controllerTemplate \<Rightarrow> 'g \<Rightarrow> bool \<times> 'c controllerTemplate" where
  "goalCB h c goal =
     (let c1 = emit Call_acceptNewGoal (c\<lparr>action_server := server_acceptNewGoal (action_server c)\<rparr>);
          (ok, d) = parseGoal h (derived c1) goal;
          c2 = emit Call_parseGoal (c1\<lparr>derived := d\<rparr>)
      in if \<not> ok then
           (False, emit Call_setAborted (c2\<lparr>action_server := server_setAborted (action_server c2)\<rparr>))
         else
           (True, emit Info_new_goal (c2\<lparr>acquired_goal := True\<rparr>)))"

definition preemptCB :: "('c, 'g) hooks \<Rightarrow> 'c controllerTemplate \<Rightarrow> 'c controllerTemplate" where
  "preemptCB h c =
     (let c1 = emit Call_setPreempted (c\<lparr>action_server := server_setPreempted (action_server c)\<rparr>);
          c2 = emit Warn_preempted c1
      in resetInternalState h c2)"

subsection \<open>A caller of the control loop\<close>

text \<open>
  The host calls \<^verbatim>\<open>updateControl\<close> once per control cycle. \<open>run_updates\<close> is that loop
  over a list of (current state, \<open>dt\<close>) pairs with no callback in between; it collects the
  results. A current state is valid when its position is not empty (the test of
  \<^verbatim>\<open>lastState\<close>), and \<open>zeroed\<close> is a state with every velocity set to 0.0.
\<close>

fun run_updates ::
  "('c, 'g) hooks \<Rightarrow> 'c controllerTemplate \<Rightarrow> (jointState \<times> double) list \<Rightarrow> (fault + jointState) list" where
  "run_updates h c [] = []"
| "run_updates h c ((current_state, dt) # rest) =
     (let (r, c1) = updateControl h c current_state dt in r # run_updates h c1 rest)"

definition valid_input :: "jointState \<times> double \<Rightarrow> bool" where
  "valid_input x = (position (fst x) \<noteq> [])"

definition zeroed :: "jointState \<Rightarrow> jointState" where
  "zeroed cur = cur\<lparr>velocity := replicate (length (velocity cur)) (Finite 0)\<rparr>"

section \<open>Wrench manager (wrench\_manager.cpp)\<close>

subsection \<open>Data\<close>

text \<open>
  Scalars are of any type \<open>'a\<close> with \<open>0\<close>, \<open>1\<close>, \<open>+\<close> and \<open>*\<close>, and no law is assumed
  of them, so what is proved holds for the doubles of the program with their rounding.

  \<open>'a vec6\<close> is \<^verbatim>\<open>Eigen::Matrix<double, 6, 1>\<close>. \<open>'a wrench\<close> is a force and a torque, the
  shape of both \<^verbatim>\<open>KDL::Wrench\<close> and \<^verbatim>\<open>geometry_msgs::Wrench\<close>. The conversions of the
  libraries \<^verbatim>\<open>tf_conversions\<close> and \<^verbatim>\<open>eigen_conversions\<close> copy the six numbers, force first.
\<close>

datatype 'a vec6 = Vec6 'a 'a 'a 'a 'a 'a

datatype 'a wrench = Wrench (force: "'a \<times> 'a \<times> 'a") (torque: "'a \<times> 'a \<times> 'a")

fun wrenchMsgToEigen :: "'a wrench \<Rightarrow> 'a vec6" where
  "wrenchMsgToEigen (Wrench (fx, fy, fz) (tx, ty, tz)) = Vec6 fx fy fz tx ty tz"

fun wrenchEigenToKDL :: "'a vec6 \<Rightarrow> 'a wrench" where
  "wrenchEigenToKDL (Vec6 a b c d e f) = Wrench (a, b, c) (d, e, f)"

fun wrenchKDLToEigen :: "'a wrench \<Rightarrow> 'a vec6" where
  "wrenchKDLToEigen (Wrench (fx, fy, fz) (tx, ty, tz)) = Vec6 fx fy fz tx ty tz"

definition wrenchKDLToMsg :: "'a wrench \<Rightarrow> 'a wrench" where
  "wrenchKDLToMsg k = k"

text \<open>\<^verbatim>\<open>KDL::Wrench::Zero()\<close>\<close>

definition Wrench_Zero :: "'a::zero wrench" where
  "Wrench_Zero = Wrench (0, 0, 0) (0, 0, 0)"

text \<open>
  \<^verbatim>\<open>Eigen::MatrixXd\<close>: a matrix whose numbers of rows and columns are run-time values.
  The product with a 6-vector, assigned to a 6-vector, needs six columns and six rows;
  Eigen asserts that, and the model reports it as a fault. The order in which Eigen adds
  the six products of a row is not fixed by the source; it is written left to right.
\<close>

record 'a matrixXd =
  rows :: nat
  cols :: nat
  coeff :: "nat \<Rightarrow> nat \<Rightarrow> 'a"

fun row_times_vec6 :: "'a::{plus,times} matrixXd \<Rightarrow> nat \<Rightarrow> 'a vec6 \<Rightarrow> 'a" where
  "row_times_vec6 C i (Vec6 a b c d e f) =
     coeff C i 0 * a + coeff C i 1 * b + coeff C i 2 * c +
     coeff C i 3 * d + coeff C i 4 * e + coeff C i 5 * f"

definition matrix_times_vec6 :: "'a::{plus,times} matrixXd \<Rightarrow> 'a vec6 \<Rightarrow> fault + 'a vec6" where
  "matrix_times_vec6 C v =
     (if cols C \<noteq> 6 \<or> rows C \<noteq> 6 then Inl DimensionMismatch
      else Inr (Vec6 (row_times_vec6 C 0 v) (row_times_vec6 C 1 v) (row_times_vec6 C 2 v)
                     (row_times_vec6 C 3 v) (row_times_vec6 C 4 v) (row_times_vec6 C 5 v)))"

text \<open>\<^verbatim>\<open>geometry_msgs::Pose\<close>, \<^verbatim>\<open>PoseStamped\<close> and \<^verbatim>\<open>WrenchStamped\<close>.\<close>

record 'a pose =
  pose_position :: "'a \<times> 'a \<times> 'a"
  pose_orientation :: "'a \<times> 'a \<times> 'a \<times> 'a"

record 'a poseStamped =
  ps_header :: header
  ps_pose :: "'a pose"

record 'a wrenchStamped =
  ws_header :: header
  ws_wrench :: "'a wrench"

text \<open>
  What the manager consumes from outside, as the code calls it:
  \<^item> \<open>transformPose k target p\<close>: the outcome of the call
    \<^verbatim>\<open>listener_.transformPose(target, p, p)\<close> made at loop count \<open>k\<close>; \<open>None\<close> is a
    \<^verbatim>\<open>tf::TransformException\<close>, which leaves \<open>p\<close> as it was;
  \<^item> \<open>parseMatrixData key\<close>: the matrix \<^verbatim>\<open>parser_.parseMatrixData(C, key, nh_)\<close> stores
    in \<open>C\<close>, or \<open>None\<close> when it returns false;
  \<^item> \<open>poseMsgToKDL\<close>: \<^verbatim>\<open>tf::poseMsgToKDL\<close>, into the type \<open>'f\<close> of \<^verbatim>\<open>KDL::Frame\<close>;
  \<^item> \<open>frame_times_wrench\<close>: \<^verbatim>\<open>KDL::Frame::operator*(const Wrench&)\<close>;
  \<^item> \<open>time_now\<close>: \<^verbatim>\<open>ros::Time::now()\<close>.
\<close>

record ('a, 'f) externals =
  transformPose :: "nat \<Rightarrow> string \<Rightarrow> 'a poseStamped \<Rightarrow> 'a poseStamped option"
  parseMatrixData :: "string \<Rightarrow> 'a matrixXd option"
  poseMsgToKDL :: "'a pose \<Rightarrow> 'f"
  frame_times_wrench :: "'f \<Rightarrow> 'a wrench \<Rightarrow> 'a wrench"
  time_now :: nat

text \<open>
  What a call of the manager does besides returning, in program order: the calls of the
  frame resolver, the sleeps, the messages published, and the warning and error lines.
\<close>

datatype 'a wm_event =
    Call_transformPose
  | Warn_tf_exception                \<comment> \<open>"TF exception in wrench manager: ..."\<close>
  | Sleep rat                        \<comment> \<open>\<^verbatim>\<open>ros::Duration(s).sleep()\<close>\<close>
  | Error_already_initialized        \<comment> \<open>"Cannot initialize wrench subscriber ...: already initialized"\<close>
  | Error_no_transform               \<comment> \<open>"could not find the transform between ..."\<close>
  | Error_missing_calibration        \<comment> \<open>"missing force torque sensor calibration matrix parameter ..."\<close>
  | Error_not_6x6 nat nat            \<comment> \<open>"calibration matrix must be 6x6. Got rows x cols"\<close>
  | Error_unknown_frame              \<comment> \<open>"got wrench message from sensor at frame ..., which was not configured"\<close>
  | Publish string "'a wrenchStamped" \<comment> \<open>\<^verbatim>\<open>processed_ft_pub_[arm].publish(temp_wrench)\<close>, by topic\<close>

text \<open>
  The members of \<^verbatim>\<open>WrenchManager\<close>: parallel vectors, one entry per registered
  end-effector. A subscriber and a publisher are kept as their topics.
\<close>

record ('a, 'f) wrenchManager =
  max_tf_attempts :: int
  manager_index :: "string list"
  sensor_frame :: "string list"
  gripping_frame :: "string list"
  sensor_to_gripping_point :: "'f list"
  measured_wrench :: "'a wrench list"
  calibration_matrix :: "'a matrixXd list"
  ft_sub :: "string list"
  processed_ft_pub :: "string list"

subsection \<open>Operations\<close>

text \<open>
  The constructor; its argument is what
  \<^verbatim>\<open>nh_.getParam("wrench_manager/max_tf_attempts", max_tf_attempts_)\<close> finds.
\<close>

definition WrenchManager :: "int option \<Rightarrow> ('a, 'f) wrenchManager" where
  "WrenchManager param =
     \<lparr>max_tf_attempts = (case param of None \<Rightarrow> 5 | Some n \<Rightarrow> n),
      manager_index = [], sensor_frame = [], gripping_frame = [],
      sensor_to_gripping_point = [], measured_wrench = [], calibration_matrix = [],
      ft_sub = [], processed_ft_pub = []\<rparr>"

text \<open>
  Modelled from the spec: the lookup of an end-effector is a linear search of the growing
  array of names. \<open>linear_search ks key i\<close> is the index of the first \<open>key\<close> in \<open>ks\<close>,
  counted from \<open>i\<close>.
\<close>

fun linear_search :: "string list \<Rightarrow> string \<Rightarrow> nat \<Rightarrow> nat option" where
  "linear_search [] key i = None"
| "linear_search (k # ks) key i = (if k = key then Some i else linear_search ks key (i + 1))"

text \<open>
  Modelled from the spec: \<^verbatim>\<open>getIndex\<close> is a member the manager inherits, and its
  definition is not among the source files. The spec describes the registry as parallel
  arrays keyed by a linear search for the end-effector name, and a query for an unknown
  name as failing. \<open>getIndex m key\<close> is the first index of \<open>key\<close> in \<open>manager_index\<close>, or
  \<open>None\<close> where the C++ function returns false.
\<close>

definition getIndex :: "('a, 'f) wrenchManager \<Rightarrow> string \<Rightarrow> nat option" where
  "getIndex m key = linear_search (manager_index m) key 0"

text \<open>
  The pose \<^verbatim>\<open>initializeWrenchComm\<close> starts from: the identity pose in the sensor frame,
  stamped \<^verbatim>\<open>ros::Time(0)\<close>.
\<close>

definition identity_pose_in :: "string \<Rightarrow> 'a::{zero,one} poseStamped" where
  "identity_pose_in sensor_frame' =
     \<lparr>ps_header = \<lparr>stamp = 0, frame_id = sensor_frame'\<rparr>,
      ps_pose = \<lparr>pose_position = (0, 0, 0), pose_orientation = (0, 0, 0, 1)\<rparr>\<rparr>"

text \<open>
  The retry loop of \<^verbatim>\<open>initializeWrenchComm\<close>, from count \<open>attempts\<close> on:
  \<^verbatim>\<open>for (attempts = 0; attempts < max_tf_attempts_; attempts++) {
    try { listener_.transformPose(target, pose, pose); break; }
    catch (tf::TransformException ex) { ROS_WARN(...); }
    ros::Duration(0.1).sleep(); }\<close>
  It returns the final count, the pose and the events, appended to \<open>ev\<close>.
\<close>

function transform_loop ::
  "(nat \<Rightarrow> string \<Rightarrow> 'a poseStamped \<Rightarrow> 'a poseStamped option) \<Rightarrow> string \<Rightarrow> int \<Rightarrow> int
     \<Rightarrow> 'a poseStamped \<Rightarrow> 'a wm_event list \<Rightarrow> int \<times> 'a poseStamped \<times> 'a wm_event list" where
  "transform_loop listener target max_attempts attempts p ev =
     (if attempts < max_attempts then
        (case listener (nat attempts) target p of
           Some q \<Rightarrow> (attempts, q, ev @ [Call_transformPose])
         | None \<Rightarrow>
             transform_loop listener target max_attempts (attempts + 1) p
               (ev @ [Call_transformPose, Warn_tf_exception, Sleep (1 / 10)]))
      else (attempts, p, ev))"
  by pat_completeness auto
termination
  by (relation "measure (\<lambda>(listener, target, max_attempts, attempts, p, ev). nat (max_attempts - attempts))")
    auto

declare transform_loop.simps [simp del]

text \<open>
  The last part of \<^verbatim>\<open>initializeWrenchComm\<close>, after the transform was found: the
  calibration matrix is looked up and checked, and the channel is appended to every vector.
\<close>

definition add_comm ::
  "('a::{zero,one,plus,times}, 'f) externals \<Rightarrow> ('a, 'f) wrenchManager \<Rightarrow> string \<Rightarrow> string \<Rightarrow> string
     \<Rightarrow> string \<Rightarrow> string \<Rightarrow> 'a poseStamped \<Rightarrow> 'a wm_event list
     \<Rightarrow> bool \<times> ('a, 'f) wrenchManager \<times> 'a wm_event list" where
  "add_comm w m end_effector sensor_frame' gripping_point_frame sensor_topic calib_matrix_param
      sensor_to_gripping_point' ev =
     (case parseMatrixData w calib_matrix_param of
        None \<Rightarrow> (False, m, ev @ [Error_missing_calibration])
      | Some C \<Rightarrow>
          if cols C \<noteq> 6 \<or> rows C \<noteq> 6 then (False, m, ev @ [Error_not_6x6 (rows C) (cols C)])
          else
            (True,
             m\<lparr>calibration_matrix := calibration_matrix m @ [C],
               manager_index := manager_index m @ [end_effector],
               sensor_frame := sensor_frame m @ [sensor_frame'],
               sensor_to_gripping_point :=
                 sensor_to_gripping_point m @ [poseMsgToKDL w (ps_pose sensor_to_gripping_point')],
               measured_wrench := measured_wrench m @ [Wrench_Zero],
               ft_sub := ft_sub m @ [sensor_topic],
               gripping_frame := gripping_frame m @ [gripping_point_frame],
               processed_ft_pub := processed_ft_pub m @ [sensor_topic @ ''_converted'']\<rparr>,
             ev))"

definition initializeWrenchComm ::
  "('a::{zero,one,plus,times}, 'f) externals \<Rightarrow> ('a, 'f) wrenchManager \<Rightarrow> string \<Rightarrow> string \<Rightarrow> string
     \<Rightarrow> string \<Rightarrow> string \<Rightarrow> bool \<times> ('a, 'f) wrenchManager \<times> 'a wm_event list" where
  "initializeWrenchComm w m end_effector sensor_frame' gripping_point_frame sensor_topic calib_matrix_param =
     (case getIndex m end_effector of
        Some a \<Rightarrow> (False, m, [Error_already_initialized])
      | None \<Rightarrow>
          (let sensor_to_gripping_point' = identity_pose_in sensor_frame';
               (attempts, p, ev) =
                 transform_loop (transformPose w) gripping_point_frame (max_tf_attempts m) 0
                   sensor_to_gripping_point' []
           in if attempts \<ge> max_tf_attempts m then (False, m, ev @ [Error_no_transform])
              else add_comm w m end_effector sensor_frame' gripping_point_frame sensor_topic
                     calib_matrix_param p ev))"

definition wrenchAtSensorPoint ::
  "('a, 'f) wrenchManager \<Rightarrow> string \<Rightarrow> fault + 'a vec6 option" where
  "wrenchAtSensorPoint m end_effector =
     (case getIndex m end_effector of
        None \<Rightarrow> Inr None
      | Some arm \<Rightarrow>
          if length (measured_wrench m) \<le> arm then Inl OutOfRange
          else Inr (Some (wrenchKDLToEigen (measured_wrench m ! arm))))"

text \<open>
  \<^verbatim>\<open>wrenchAtGrippingPoint\<close>: the wrench written to the out-parameter (\<open>None\<close> when the
  function returns false), with the message it publishes.
\<close>

definition wrenchAtGrippingPoint ::
  "('a, 'f) externals \<Rightarrow> ('a, 'f) wrenchManager \<Rightarrow> string \<Rightarrow> fault + ('a vec6 option \<times> 'a wm_event list)" where
  "wrenchAtGrippingPoint w m end_effector =
     (case getIndex m end_effector of
        None \<Rightarrow> Inr (None, [])
      | Some arm \<Rightarrow>
          if length (sensor_to_gripping_point m) \<le> arm \<or> length (measured_wrench m) \<le> arm \<or>
             length (gripping_frame m) \<le> arm \<or> length (processed_ft_pub m) \<le> arm
          then Inl OutOfRange
          else
            (let wrench_kdl = frame_times_wrench w (sensor_to_gripping_point m ! arm) (measured_wrench m ! arm);
                 wrench = wrenchKDLToEigen wrench_kdl;
                 temp_wrench =
                   \<lparr>ws_header = \<lparr>stamp = time_now w, frame_id = gripping_frame m ! arm\<rparr>,
                    ws_wrench = wrenchKDLToMsg wrench_kdl\<rparr>
             in Inr (Some wrench, [Publish (processed_ft_pub m ! arm) temp_wrench])))"

text \<open>
  The search of \<^verbatim>\<open>forceTorqueCB\<close>, from index \<open>i\<close> on; \<open>-1\<close> when no frame matches:
  \<^verbatim>\<open>for (int i = 0; i < sensor_frame_.size(); i++)
    if (msg->header.frame_id == sensor_frame_[i]) { sensor_num = i; break; }\<close>
\<close>

function find_sensor :: "string list \<Rightarrow> string \<Rightarrow> nat \<Rightarrow> int" where
  "find_sensor frames fid i =
     (if i < length frames then
        (if fid = frames ! i then int i else find_sensor frames fid (i + 1))
      else - 1)"
  by pat_completeness auto
termination
  by (relation "measure (\<lambda>(frames, fid, i). length frames - i)") auto

declare find_sensor.simps [simp del]

definition forceTorqueCB ::
  "('a::{plus,times}, 'f) wrenchManager \<Rightarrow> 'a wrenchStamped
     \<Rightarrow> fault + (('a, 'f) wrenchManager \<times> 'a wm_event list)" where
  "forceTorqueCB m msg =
     (let sensor_num = find_sensor (sensor_frame m) (frame_id (ws_header msg)) 0
      in if sensor_num < 0 then Inr (m, [Error_unknown_frame])
         else
           (let wrench_eig = wrenchMsgToEigen (ws_wrench msg)
            in if length (calibration_matrix m) \<le> nat sensor_num then Inl OutOfRange
               else
                 (case matrix_times_vec6 (calibration_matrix m ! nat sensor_num) wrench_eig of
                    Inl f \<Rightarrow> Inl f
                  | Inr wrench_eig' \<Rightarrow>
                      if length (measured_wrench m) \<le> nat sensor_num then Inl OutOfRange
                      else
                        Inr (m\<lparr>measured_wrench :=
                               (measured_wrench m)[nat sensor_num := wrenchEigenToKDL wrench_eig']\<rparr>,
                             []))))"

text \<open>
  The registry is well formed when the vectors are aligned, the names are distinct and
  every calibration matrix is 6 by 6. The constructor establishes that, and registration
  and sample ingestion keep it.
\<close>

definition wm_inv :: "('a, 'f) wrenchManager \<Rightarrow> bool" where
  "wm_inv m \<longleftrightarrow>
     length (sensor_frame m) = length (manager_index m) \<and>
     length (gripping_frame m) = length (manager_index m) \<and>
     length (sensor_to_gripping_point m) = length (manager_index m) \<and>
     length (measured_wrench m) = length (manager_index m) \<and>
     length (calibration_matrix m) = length (manager_index m) \<and>
     length (ft_sub m) = length (manager_index m) \<and>
     length (processed_ft_pub m) = length (manager_index m) \<and>
     distinct (manager_index m) \<and>
     list_all (\<lambda>C. rows C = 6 \<and> cols C = 6) (calibration_matrix m)"

text \<open>
  A sample is ingested and the sensor-frame wrench of an end-effector is queried right
  after it, as a caller of the manager does.
\<close>

definition sample_then_query ::
  "('a::{plus,times}, 'f) wrenchManager \<Rightarrow> 'a wrenchStamped \<Rightarrow> string \<Rightarrow> fault + 'a vec6 option" where
  "sample_then_query m msg end_effector =
     (case forceTorqueCB m msg of
        Inl f \<Rightarrow> Inl f
      | Inr (m', ev) \<Rightarrow> wrenchAtSensorPoint m' end_effector)"

section \<open>Example inputs\<close>

definition example_hooks :: "jointState \<Rightarrow> (nat, bool) hooks" where
  "example_hooks ret =
     \<lparr>controlAlgorithm = (\<lambda>d s cur dt. (ret, Suc d, s)),
      parseGoal = (\<lambda>d g. (g, d)),
      resetController = (\<lambda>d. 0)\<rparr>"

definition example_current :: jointState where
  "example_current =
     \<lparr>js_header = empty_header, name = [''j1'', ''j2''],
      position = [Finite 1, Finite 2], velocity = [Finite 3, Finite 4], effort = []\<rparr>"

definition example_active :: "nat controllerTemplate" where
  "example_active = snd (goalCB (example_hooks example_current) (ControllerTemplate 0) True)"

definition short_nan_state :: jointState where
  "short_nan_state =
     \<lparr>js_header = empty_header, name = [''j1'', ''j2''], position = [NaN], velocity = [Finite 0],
      effort = []\<rparr>"


definition short_finite_state :: jointState where
  "short_finite_state =
     \<lparr>js_header = empty_header, name = [''j1'', ''j2''], position = [Finite 1, Finite 2],
      velocity = [Finite 0], effort = []\<rparr>"

definition example_moved :: jointState where
  "example_moved =
     \<lparr>js_header = empty_header, name = [''j1'', ''j2''],
      position = [Finite 5, Finite 6], velocity = [Finite 7, Finite 8], effort = []\<rparr>"

definition example_inputs :: "(jointState \<times> double) list" where
  "example_inputs =
     [(empty_jointState, Finite (1 / 100)), (example_current, Finite (1 / 100)),
      (example_moved, Finite 1), (empty_jointState, Finite (1 / 100))]"

text \<open>
  A controller that cached \<open>example_current\<close> while it was idle and then acquired a goal,
  and a derived class whose algorithm ends the goal itself with \<^verbatim>\<open>setAborted\<close>.
\<close>

definition example_holding :: "nat controllerTemplate" where
  "example_holding =
     snd (goalCB (example_hooks example_current)
       (snd (updateControl (example_hooks example_current) (ControllerTemplate 0)
          example_current (Finite (1 / 100))))
       True)"

definition aborting_hooks :: "jointState \<Rightarrow> (nat, bool) hooks" where
  "aborting_hooks ret =
     \<lparr>controlAlgorithm = (\<lambda>d s cur dt. (ret, Suc d, server_setAborted s)),
      parseGoal = (\<lambda>d g. (g, d)),
      resetController = (\<lambda>d. 0)\<rparr>"

text \<open>
  An example for the wrench manager over the integers. The frame resolver fails twice and
  then gives a translation by one unit along z; a frame acts on a wrench as a KDL frame
  without rotation does (the force is kept, the torque gains \<open>p \<times> f\<close>); the calibration
  matrix doubles every component.
\<close>

definition example_calib :: "int matrixXd" where
  "example_calib = \<lparr>rows = 6, cols = 6, coeff = (\<lambda>i j. if i = j then 2 else 0)\<rparr>"

fun translate_wrench :: "int pose \<Rightarrow> int wrench \<Rightarrow> int wrench" where
  "translate_wrench T (Wrench (fx, fy, fz) (tx, ty, tz)) =
     (case pose_position T of
        (px, py, pz) \<Rightarrow>
          Wrench (fx, fy, fz)
            (tx + (py * fz - pz * fy), ty + (pz * fx - px * fz), tz + (px * fy - py * fx)))"

definition example_shift :: "int pose" where
  "example_shift = \<lparr>pose_position = (0, 0, 1), pose_orientation = (0, 0, 0, 1)\<rparr>"

definition example_externals :: "(int, int pose) externals" where
  "example_externals =
     \<lparr>transformPose = (\<lambda>k target p.
        if k < 2 then None
        else Some \<lparr>ps_header = \<lparr>stamp = 0, frame_id = target\<rparr>, ps_pose = example_shift\<rparr>),
      parseMatrixData = (\<lambda>key.
        if key = ''left/sensor_calib'' \<or> key = ''right/sensor_calib'' then Some example_calib
        else if key = ''m5x6'' then Some \<lparr>rows = 5, cols = 6, coeff = (\<lambda>i j. 1)\<rparr>
        else if key = ''m6x5'' then Some \<lparr>rows = 6, cols = 5, coeff = (\<lambda>i j. 1)\<rparr>
        else if key = ''m0x0'' then Some \<lparr>rows = 0, cols = 0, coeff = (\<lambda>i j. 1)\<rparr>
        else None),
      poseMsgToKDL = (\<lambda>p. p),
      frame_times_wrench = translate_wrench,
      time_now = 42\<rparr>"

definition example_manager :: "(int, int pose) wrenchManager" where
  "example_manager =
     fst (snd (initializeWrenchComm example_externals (WrenchManager None)
       ''left_arm'' ''left_sensor'' ''left_grip'' ''left_ft'' ''left/sensor_calib''))"

definition shared_frame_manager :: "(int, int pose) wrenchManager" where
  "shared_frame_manager =
     fst (snd (initializeWrenchComm example_externals
       (fst (snd (initializeWrenchComm example_externals (WrenchManager None)
          ''left_arm'' ''ft_link'' ''left_grip'' ''left_ft'' ''left/sensor_calib'')))
       ''right_arm'' ''ft_link'' ''right_grip'' ''right_ft'' ''right/sensor_calib''))"

definition example_sample :: "string \<Rightarrow> int wrenchStamped" where
  "example_sample frame =
     \<lparr>ws_header = \<lparr>stamp = 7, frame_id = frame\<rparr>, ws_wrench = Wrench (1, 2, 3) (4, 5, 6)\<rparr>"

definition example_loaded :: "(int, int pose) wrenchManager" where
  "example_loaded = example_manager\<lparr>measured_wrench := [Wrench (2, 4, 6) (8, 10, 12)]\<rparr>"

text \<open>A frame resolver that fails twice and then gives a shift that grows with the attempt.\<close>

definition varying_externals :: "(int, int pose) externals" where
  "varying_externals =
     example_externals\<lparr>transformPose := (\<lambda>k target p.
        if k < 2 then None
        else Some \<lparr>ps_header = \<lparr>stamp = 0, frame_id = target\<rparr>,
                   ps_pose = \<lparr>pose_position = (0, 0, int k), pose_orientation = (0, 0, 0, 1)\<rparr>\<rparr>)\<rparr>"

section \<open>Controller lifecycle: properties\<close>

subsection \<open>Auxiliary facts\<close>

lemma zero_velocity_from:
  "zero_velocity v i = take i v @ replicate (length v - i) (Finite 0)"
proof (induction v i rule: zero_velocity.induct)
  case (1 v i)
  show ?case
  proof (cases "i < length v")
    case True
    then obtain n where n: "length v - i = Suc n" "length v - (i + 1) = n"
      by (metis Suc_diff_Suc Suc_eq_plus1)
    have "zero_velocity v i = zero_velocity (v[i := Finite 0]) (i + 1)"
      using True by (subst zero_velocity.simps) simp
    also have "\<dots> = take (i + 1) (v[i := Finite 0]) @ replicate n (Finite 0)"
      using "1.IH" [OF True] n by simp
    also have "take (i + 1) (v[i := Finite 0]) = take i v @ [Finite 0]"
      using True by (simp add: take_Suc_conv_app_nth)
    finally show ?thesis using n by simp
  next
    case False
    then show ?thesis by (subst zero_velocity.simps) simp
  qed
qed

lemma zero_velocity_all: "zero_velocity v 0 = replicate (length v) (Finite 0)"
  by (simp add: zero_velocity_from)

lemma lastState_cache: "fst (lastState c cur) = last_state (snd (lastState c cur))"
  by (simp add: lastState_def Let_def emit_def)

lemma lastState_events:
  "events (snd (lastState c cur)) = events c @ (if position cur = [] then [Warn_invalid_state] else [])"
  by (simp add: lastState_def Let_def emit_def)

lemma lastState_frame:
  "action_server (snd (lastState c cur)) = action_server c"
  "acquired_goal (snd (lastState c cur)) = acquired_goal c"
  "derived (snd (lastState c cur)) = derived c"
  by (simp_all add: lastState_def Let_def emit_def)

lemma lastState_value:
  "fst (lastState c cur) =
     (if position cur = [] \<or> has_state c then last_state c
      else cur\<lparr>velocity := replicate (length (velocity cur)) (Finite 0)\<rparr>)"
  by (simp add: lastState_def Let_def emit_def zero_velocity_all)

lemma lastState_has_state:
  "has_state (snd (lastState c cur)) = (has_state c \<or> position cur \<noteq> [])"
  by (simp add: lastState_def Let_def emit_def)


lemma lastState_ignores_trace:
  "fst (lastState (emit e c) cur) = fst (lastState c cur)"
  "fst (lastState (c\<lparr>action_server := s\<rparr>) cur) = fst (lastState c cur)"
  by (simp_all add: lastState_value emit_def)

lemma updateControl_idle:
  assumes "\<not> server_isActive (action_server c) \<or> \<not> acquired_goal c"
  shows "updateControl h c cur dt = (Inr (fst (lastState c cur)), snd (lastState c cur))"
  using assms by (simp add: updateControl_def case_prod_beta)

lemma updateControl_stale:
  assumes "server_isActive (action_server c)" and "acquired_goal c" and "double_gt dt MAX_DT"
  shows "updateControl h c cur dt =
     (Inr (fst (lastState c cur)),
      snd (lastState (emit Call_setAborted ((emit Error_no_updates c)\<lparr>action_server := ABORTED\<rparr>)) cur))"
  using assms
  by (simp add: updateControl_def Let_def case_prod_beta server_setAborted_def emit_def lastState_value)

lemma updateControl_fresh:
  assumes "server_isActive (action_server c)" and "acquired_goal c" and "\<not> double_gt dt MAX_DT"
    and alg: "controlAlgorithm h (derived c) (action_server c) cur dt = (ret, d, s)"
    and c3: "c3 = (let c2 = emit Call_publishFeedback (emit Call_controlAlgorithm (c\<lparr>derived := d, action_server := s\<rparr>))
                   in if \<not> server_isActive (action_server c2) then resetInternalState h c2 else c2)"
  shows "updateControl h c cur dt =
      (case verify_sanity ret 0 of
         Inl f \<Rightarrow> (Inl f, c3)
       | Inr False \<Rightarrow> (Inr (fst (lastState (emit Error_invalid_joint_states c3) cur)),
                       snd (lastState (emit Error_invalid_joint_states c3) cur))
       | Inr True \<Rightarrow> (Inr ret, c3))"
  unfolding updateControl_def c3 Let_def using assms(1-3)
  by (simp add: alg case_prod_beta cong: sum.case_cong bool.case_cong)


lemma after_algorithm_fields:
  assumes "c3 = (let c2 = emit Call_publishFeedback (emit Call_controlAlgorithm (c\<lparr>derived := d, action_server := s\<rparr>))
                   in if \<not> server_isActive (action_server c2) then resetInternalState h c2 else c2)"
  shows "events c3 = events c @ [Call_controlAlgorithm, Call_publishFeedback] @
           (if server_isActive s then [] else [Call_resetController])"
    and "action_server c3 = s"
    and "last_state c3 = last_state c"
    and "has_state c3 = (has_state c \<and> server_isActive s)"
    and "acquired_goal c3 = (acquired_goal c \<and> server_isActive s)"
  by (simp_all add: assms emit_def resetInternalState_def resetFlags_def Let_def)

lemma example_active_eq:
  "example_active =
     \<lparr>action_server = ACTIVE, last_state = empty_jointState, has_state = False,
      acquired_goal = True, derived = 0,
      events = [Info_initialized, Call_acceptNewGoal, Call_parseGoal, Info_new_goal]\<rparr>"
  by (simp add: example_active_def goalCB_def ControllerTemplate_def example_hooks_def emit_def
      resetFlags_def server_acceptNewGoal_def Let_def)

lemma verify_sanity_in_range:
  assumes "length (name ret) \<le> length (position ret)" and "length (name ret) \<le> length (velocity ret)"
  shows "verify_sanity ret i =
     Inr (\<forall>j. i \<le> j \<and> j < length (name ret) \<longrightarrow> isfinite (position ret ! j) \<and> isfinite (velocity ret ! j))"
  using assms
proof (induction ret i rule: verify_sanity.induct)
  case (1 ret i)
  note len = "1.prems"
  show ?case
  proof (cases "i < length (name ret)")
    case False
    then have "verify_sanity ret i = Inr True"
      by (subst verify_sanity.simps) simp
    then show ?thesis
      using False by auto
  next
    case True
    note lt = this
    show ?thesis
    proof (cases "isfinite (position ret ! i) \<and> isfinite (velocity ret ! i)")
      case False
      then have "verify_sanity ret i = Inr False"
        using lt len by (subst verify_sanity.simps) auto
      moreover have "\<not> (\<forall>j. i \<le> j \<and> j < length (name ret) \<longrightarrow> isfinite (position ret ! j) \<and> isfinite (velocity ret ! j))"
        using False lt by blast
      ultimately show ?thesis by simp
    next
      case True
      then have "verify_sanity ret i = verify_sanity ret (i + 1)"
        using lt len by (subst verify_sanity.simps) auto
      also have "\<dots> = Inr (\<forall>j. i + 1 \<le> j \<and> j < length (name ret) \<longrightarrow> isfinite (position ret ! j) \<and> isfinite (velocity ret ! j))"
        using "1.IH" lt True len by simp
      also have "(\<forall>j. i + 1 \<le> j \<and> j < length (name ret) \<longrightarrow> isfinite (position ret ! j) \<and> isfinite (velocity ret ! j))
          = (\<forall>j. i \<le> j \<and> j < length (name ret) \<longrightarrow> isfinite (position ret ! j) \<and> isfinite (velocity ret ! j))"
        using True by (metis Suc_eq_plus1 Suc_leI le_neq_implies_less not_less_eq_eq le_SucI)
      finally show ?thesis .
    qed
  qed
qed


lemma verify_sanity_fault:
  "verify_sanity ret i = Inl f \<longleftrightarrow>
     f = OutOfRange \<and>
     (\<exists>k. i \<le> k \<and> k < length (name ret) \<and>
        (\<forall>j. i \<le> j \<and> j < k \<longrightarrow> j < length (position ret) \<and> j < length (velocity ret) \<and>
           isfinite (position ret ! j) \<and> isfinite (velocity ret ! j)) \<and>
        (length (position ret) \<le> k \<or> isfinite (position ret ! k) \<and> length (velocity ret) \<le> k))"
  (is "?L ret i \<longleftrightarrow> f = OutOfRange \<and> (\<exists>k. ?Q ret i k)")
proof (induction ret i rule: verify_sanity.induct)
  case (1 ret i)
  show ?case
  proof (cases "i < length (name ret)")
    case False
    then have "verify_sanity ret i = Inr True"
      by (subst verify_sanity.simps) simp
    moreover have "\<not> (\<exists>k. ?Q ret i k)"
      using False by auto
    ultimately show ?thesis by simp
  next
    case lt: True
    consider (a) "length (position ret) \<le> i"
      | (b) "i < length (position ret)" "\<not> isfinite (position ret ! i)"
      | (c) "i < length (position ret)" "isfinite (position ret ! i)" "length (velocity ret) \<le> i"
      | (d) "i < length (position ret)" "isfinite (position ret ! i)" "i < length (velocity ret)"
            "\<not> isfinite (velocity ret ! i)"
      | (e) "i < length (position ret)" "isfinite (position ret ! i)" "i < length (velocity ret)"
            "isfinite (velocity ret ! i)"
      by linarith
    then show ?thesis
    proof cases
      case a
      then have "verify_sanity ret i = Inl OutOfRange"
        using lt by (subst verify_sanity.simps) simp
      moreover have "?Q ret i i"
        using a lt by auto
      ultimately show ?thesis by auto
    next
      case b
      then have "verify_sanity ret i = Inr False"
        using lt by (subst verify_sanity.simps) simp
      moreover have "\<not> ?Q ret i k" for k
      proof
        assume q: "?Q ret i k"
        show False
        proof (cases "k = i")
          case True
          then show False using q b by auto
        next
          case False
          then have "i < k" using q by auto
          then have "isfinite (position ret ! i)" using q by auto
          then show False using b by simp
        qed
      qed
      ultimately show ?thesis by simp
    next
      case c
      then have "verify_sanity ret i = Inl OutOfRange"
        using lt by (subst verify_sanity.simps) simp
      moreover have "?Q ret i i"
        using c lt by auto
      ultimately show ?thesis by auto
    next
      case d
      then have "verify_sanity ret i = Inr False"
        using lt by (subst verify_sanity.simps) simp
      moreover have "\<not> ?Q ret i k" for k
      proof
        assume q: "?Q ret i k"
        show False
        proof (cases "k = i")
          case True
          then show False using q d by auto
        next
          case False
          then have "i < k" using q by auto
          then have "isfinite (velocity ret ! i)" using q by auto
          then show False using d by simp
        qed
      qed
      ultimately show ?thesis by simp
    next
      case e
      then have step: "verify_sanity ret i = verify_sanity ret (i + 1)"
        using lt by (subst verify_sanity.simps) simp
      have ih: "?L ret (i + 1) \<longleftrightarrow> f = OutOfRange \<and> (\<exists>k. ?Q ret (i + 1) k)"
        using "1.IH" lt e by simp
      have "(\<exists>k. ?Q ret (i + 1) k) \<longleftrightarrow> (\<exists>k. ?Q ret i k)"
      proof
        assume "\<exists>k. ?Q ret (i + 1) k"
        then obtain k where q: "?Q ret (i + 1) k" by blast
        have "?Q ret i k"
        proof (intro conjI allI impI)
          fix j assume j: "i \<le> j \<and> j < k"
          show "j < length (position ret)" "j < length (velocity ret)"
            "isfinite (position ret ! j)" "isfinite (velocity ret ! j)"
            using q e j by (cases "j = i"; auto)+
        qed (use q in auto)
        then show "\<exists>k. ?Q ret i k" by blast
      next
        assume "\<exists>k. ?Q ret i k"
        then obtain k where q: "?Q ret i k" by blast
        have "k \<noteq> i" using q e by auto
        then have "?Q ret (i + 1) k" using q by auto
        then show "\<exists>k. ?Q ret (i + 1) k" by blast
      qed
      then show ?thesis using step ih by simp
    qed
  qed
qed

lemma example_facts:
  "server_isActive (action_server example_active)"
  "acquired_goal example_active"
  "\<not> double_gt (Finite (1 / 10)) MAX_DT"
  "controlAlgorithm (example_hooks ret) (derived example_active) (action_server example_active) cur dt
     = (ret, 1, ACTIVE)"
  by (simp_all add: example_active_eq server_isActive_def MAX_DT_def example_hooks_def)

lemma valid_input_pair: "valid_input (cur, dt) \<longleftrightarrow> position cur \<noteq> []"
  by (simp add: valid_input_def)

lemma run_updates_Cons_idle:
  assumes "\<not> acquired_goal c"
  shows "run_updates h c ((cur, dt) # rest) =
     Inr (fst (lastState c cur)) # run_updates h (snd (lastState c cur)) rest"
  using assms by (simp add: updateControl_idle)

lemma run_updates_seeded:
  assumes "\<not> acquired_goal c" and "has_state c" and "k < length ins"
  shows "run_updates h c ins ! k = Inr (last_state c)"
  using assms
proof (induction ins arbitrary: c k)
  case Nil
  then show ?case by simp
next
  case (Cons x rest)
  obtain cur dt where x: "x = (cur, dt)" by (cases x)
  let ?c1 = "snd (lastState c cur)"
  have c1: "\<not> acquired_goal ?c1" "has_state ?c1" "last_state ?c1 = last_state c"
    using Cons.prems(1,2) lastState_cache [of c cur]
    by (simp_all add: lastState_frame lastState_has_state lastState_value)
  show ?case
  proof (cases k)
    case 0
    then show ?thesis
      using Cons.prems by (simp add: x run_updates_Cons_idle lastState_value del: run_updates.simps)
  next
    case (Suc n)
    then have "n < length rest" using Cons.prems(3) by simp
    then have "run_updates h ?c1 rest ! n = Inr (last_state ?c1)"
      using Cons.IH c1 by blast
    then show ?thesis
      using Cons.prems(1) by (simp add: x Suc run_updates_Cons_idle c1 del: run_updates.simps)
  qed
qed

lemma run_updates_unseeded:
  assumes "\<not> acquired_goal c" and "\<not> has_state c" and "k < length ins"
  shows "run_updates h c ins ! k =
     (case find valid_input (take (Suc k) ins) of
        None \<Rightarrow> Inr (last_state c)
      | Some x \<Rightarrow> Inr (zeroed (fst x)))"
  using assms
proof (induction ins arbitrary: c k)
  case Nil
  then show ?case by simp
next
  case (Cons x rest)
  obtain cur dt where x: "x = (cur, dt)" by (cases x)
  let ?c1 = "snd (lastState c cur)"
  show ?case
  proof (cases "position cur = []")
    case True
    then have c1: "\<not> acquired_goal ?c1" "\<not> has_state ?c1" "last_state ?c1 = last_state c"
      using Cons.prems(1,2) lastState_cache [of c cur]
      by (simp_all add: lastState_frame lastState_has_state lastState_value)
    show ?thesis
    proof (cases k)
      case 0
      then show ?thesis
        using Cons.prems True by (simp add: x run_updates_Cons_idle lastState_value valid_input_pair del: run_updates.simps)
    next
      case (Suc n)
      then have nlt: "n < length rest" using Cons.prems(3) by simp
      have "run_updates h ?c1 rest ! n =
          (case find valid_input (take (Suc n) rest) of
             None \<Rightarrow> Inr (last_state c) | Some x \<Rightarrow> Inr (zeroed (fst x)))"
        using Cons.IH [OF c1(1,2) nlt] unfolding c1(3) .
      then show ?thesis
        using Cons.prems(1) True by (simp add: x Suc run_updates_Cons_idle c1 valid_input_pair del: run_updates.simps)
    qed
  next
    case False
    then have c1: "\<not> acquired_goal ?c1" "has_state ?c1" "last_state ?c1 = zeroed cur"
      using Cons.prems(1,2) lastState_cache [of c cur]
      by (simp_all add: lastState_frame lastState_has_state lastState_value zeroed_def)
    show ?thesis
    proof (cases k)
      case 0
      then show ?thesis
        using Cons.prems False
        by (simp add: x run_updates_Cons_idle lastState_value valid_input_pair zeroed_def del: run_updates.simps)
    next
      case (Suc n)
      then have "n < length rest" using Cons.prems(3) by simp
      then have "run_updates h ?c1 rest ! n = Inr (last_state ?c1)"
        using run_updates_seeded c1 by blast
      then show ?thesis
        using Cons.prems(1) False by (simp add: x Suc run_updates_Cons_idle c1 valid_input_pair del: run_updates.simps)
    qed
  qed
qed

lemma example_holding_eq:
  "example_holding =
     \<lparr>action_server = ACTIVE, last_state = example_current\<lparr>velocity := [Finite 0, Finite 0]\<rparr>,
      has_state = True, acquired_goal = True, derived = 0,
      events = [Info_initialized, Call_acceptNewGoal, Call_parseGoal, Info_new_goal]\<rparr>"
proof -
  have idle: "\<not> server_isActive (action_server (ControllerTemplate (0::nat))) \<or>
      \<not> acquired_goal (ControllerTemplate (0::nat))"
    by (simp add: ControllerTemplate_def resetFlags_def emit_def)
  have "snd (updateControl (example_hooks example_current) (ControllerTemplate 0) example_current
      (Finite (1 / 100))) =
      \<lparr>action_server = NO_GOAL, last_state = example_current\<lparr>velocity := [Finite 0, Finite 0]\<rparr>,
       has_state = True, acquired_goal = False, derived = 0, events = [Info_initialized]\<rparr>"
    by (simp add: updateControl_idle [OF idle] lastState_def Let_def zero_velocity_all)
      (simp add: ControllerTemplate_def resetFlags_def emit_def example_current_def)
  then show ?thesis
    by (simp add: example_holding_def goalCB_def example_hooks_def emit_def
        server_acceptNewGoal_def Let_def)
qed

lemma holding_facts:
  "server_isActive (action_server example_holding)"
  "acquired_goal example_holding"
  "has_state example_holding"
  "last_state example_holding = example_current\<lparr>velocity := [Finite 0, Finite 0]\<rparr>"
  by (simp_all add: example_holding_eq server_isActive_def)

lemma holding_algorithms:
  "controlAlgorithm (example_hooks ret) (derived example_holding) (action_server example_holding) cur dt
     = (ret, 1, ACTIVE)"
  "controlAlgorithm (aborting_hooks ret) (derived example_holding) (action_server example_holding) cur dt
     = (ret, 1, ABORTED)"
  by (simp_all add: example_holding_eq example_hooks_def aborting_hooks_def server_setAborted_def
      server_isActive_def)


subsection \<open>Claims about the controller lifecycle\<close>

text \<open>
  Claim C1. An \<^verbatim>\<open>updateControl\<close> call made while a goal is active and acquired: when
  \<open>dt\<close> is strictly greater than \<open>MAX_DT = 0.5\<close>, the goal is aborted (the Goal Channel
  is no longer active) and the last known state is returned: the state cached before the
  call when one is held or the current state is empty, and otherwise the current state
  with zero velocities, which is cached by this call. The control algorithm is not run:
  the derived class is untouched and the only events are the error line, the abort and,
  for an empty current state, the warning of \<^verbatim>\<open>lastState\<close>. When \<open>dt\<close> equals
  \<open>MAX_DT\<close>, the call runs the algorithm and publishes feedback, none of its own steps
  aborts the goal, and the Goal Channel is left as the algorithm left it.
\<close>

theorem updateControl_staleness:
  assumes "server_isActive (action_server c)" and "acquired_goal c"
  shows "(double_gt dt MAX_DT \<longrightarrow>
            action_server (snd (updateControl h c cur dt)) = ABORTED \<and>
            \<not> isActive (snd (updateControl h c cur dt)) \<and>
            fst (updateControl h c cur dt) = Inr (fst (lastState c cur)) \<and>
            fst (updateControl h c cur dt) =
              Inr (if position cur = [] \<or> has_state c then last_state c else zeroed cur) \<and>
            (has_state c \<longrightarrow> fst (updateControl h c cur dt) = Inr (last_state c)) \<and>
            last_state (snd (updateControl h c cur dt)) =
              (if position cur = [] \<or> has_state c then last_state c else zeroed cur) \<and>
            has_state (snd (updateControl h c cur dt)) = (has_state c \<or> position cur \<noteq> []) \<and>
            derived (snd (updateControl h c cur dt)) = derived c \<and>
            events (snd (updateControl h c cur dt)) =
              events c @ [Error_no_updates, Call_setAborted] @
              (if position cur = [] then [Warn_invalid_state] else [])) \<and>
         (dt = MAX_DT \<longrightarrow>
            take (length (events c) + 2) (events (snd (updateControl h c cur dt))) =
              events c @ [Call_controlAlgorithm, Call_publishFeedback] \<and>
            Call_setAborted \<notin> set (drop (length (events c)) (events (snd (updateControl h c cur dt)))) \<and>
            action_server (snd (updateControl h c cur dt)) =
              snd (snd (controlAlgorithm h (derived c) (action_server c) cur dt)))"
proof (intro conjI impI)
  assume stale: "double_gt dt MAX_DT"
  note upd = updateControl_stale [OF assms stale, of h cur]
  let ?c2 = "emit Call_setAborted ((emit Error_no_updates c)\<lparr>action_server := ABORTED\<rparr>)"
  have c2: "last_state ?c2 = last_state c" "has_state ?c2 = has_state c"
    by (simp_all add: emit_def)
  show "action_server (snd (updateControl h c cur dt)) = ABORTED"
    by (simp add: upd lastState_frame emit_def)
  show "\<not> isActive (snd (updateControl h c cur dt))"
    by (simp add: upd isActive_def lastState_frame emit_def server_isActive_def)
  show "fst (updateControl h c cur dt) = Inr (fst (lastState c cur))"
    by (simp add: upd)
  show val: "fst (updateControl h c cur dt) =
      Inr (if position cur = [] \<or> has_state c then last_state c else zeroed cur)"
    by (simp add: upd lastState_value zeroed_def)
  show "fst (updateControl h c cur dt) = Inr (last_state c)" if "has_state c"
    using that by (simp add: val)
  show "last_state (snd (updateControl h c cur dt)) =
      (if position cur = [] \<or> has_state c then last_state c else zeroed cur)"
  proof -
    have "last_state (snd (updateControl h c cur dt)) = fst (lastState ?c2 cur)"
      by (simp add: upd lastState_cache [symmetric])
    also have "\<dots> = (if position cur = [] \<or> has_state c then last_state c else zeroed cur)"
      by (simp add: lastState_value c2 zeroed_def)
    finally show ?thesis .
  qed
  show "has_state (snd (updateControl h c cur dt)) = (has_state c \<or> position cur \<noteq> [])"
    by (simp add: upd lastState_has_state c2)
  show "derived (snd (updateControl h c cur dt)) = derived c"
    by (simp add: upd lastState_frame emit_def)
  show "events (snd (updateControl h c cur dt)) =
      events c @ [Error_no_updates, Call_setAborted] @
      (if position cur = [] then [Warn_invalid_state] else [])"
    by (simp add: upd lastState_events emit_def)
next
  assume eq: "dt = MAX_DT"
  have fresh: "\<not> double_gt dt MAX_DT"
    by (simp add: eq MAX_DT_def)
  obtain ret d s where alg: "controlAlgorithm h (derived c) (action_server c) cur dt = (ret, d, s)"
    using prod_cases3 by blast
  define c3 where "c3 = (let c2 = emit Call_publishFeedback (emit Call_controlAlgorithm (c\<lparr>derived := d, action_server := s\<rparr>))
                   in if \<not> server_isActive (action_server c2) then resetInternalState h c2 else c2)"
  note upd = updateControl_fresh [OF assms fresh alg c3_def]
  note c3 = after_algorithm_fields [OF c3_def]
  have ev: "\<exists>tl. events (snd (updateControl h c cur dt)) =
      events c @ [Call_controlAlgorithm, Call_publishFeedback] @ tl \<and> Call_setAborted \<notin> set tl"
  proof (cases "verify_sanity ret 0")
    case (Inl f)
    then show ?thesis by (simp add: upd c3)
  next
    case (Inr b)
    then show ?thesis by (cases b) (simp_all add: upd c3 lastState_events emit_def)
  qed
  then obtain tl where tl: "events (snd (updateControl h c cur dt)) =
      events c @ [Call_controlAlgorithm, Call_publishFeedback] @ tl" "Call_setAborted \<notin> set tl"
    by blast
  show "take (length (events c) + 2) (events (snd (updateControl h c cur dt))) =
      events c @ [Call_controlAlgorithm, Call_publishFeedback]"
    by (simp add: tl)
  show "Call_setAborted \<notin> set (drop (length (events c)) (events (snd (updateControl h c cur dt))))"
    using tl by simp
  show "action_server (snd (updateControl h c cur dt)) =
      snd (snd (controlAlgorithm h (derived c) (action_server c) cur dt))"
  proof (cases "verify_sanity ret 0")
    case (Inl f)
    then show ?thesis by (simp add: upd c3 alg)
  next
    case (Inr b)
    then show ?thesis by (cases b) (simp_all add: upd c3 alg lastState_frame emit_def)
  qed
qed

text \<open>
  C1 on the controller that holds the zeroed \<open>example_current\<close> and is given the
  different current state \<open>example_moved\<close>: with \<open>dt = 1\<close> the held state comes back,
  not the current one, and the cache is kept; with \<open>dt = MAX_DT\<close> the algorithm's state
  comes back. On the controller that holds nothing, \<open>dt = 1\<close> gives the current state
  with zero velocities.
\<close>

theorem updateControl_staleness_witness:
  "server_isActive (action_server example_holding) \<and> acquired_goal example_holding \<and>
   has_state example_holding \<and>
   last_state example_holding = example_current\<lparr>velocity := [Finite 0, Finite 0]\<rparr> \<and>
   double_gt (Finite 1) MAX_DT \<and>
   fst (updateControl (example_hooks example_moved) example_holding example_moved (Finite 1)) =
     Inr (example_current\<lparr>velocity := [Finite 0, Finite 0]\<rparr>) \<and>
   last_state (snd (updateControl (example_hooks example_moved) example_holding example_moved (Finite 1))) =
     example_current\<lparr>velocity := [Finite 0, Finite 0]\<rparr> \<and>
   action_server (snd (updateControl (example_hooks example_moved) example_holding example_moved (Finite 1)))
     = ABORTED \<and>
   derived (snd (updateControl (example_hooks example_moved) example_holding example_moved (Finite 1))) = 0 \<and>
   events (snd (updateControl (example_hooks example_moved) example_holding example_moved (Finite 1))) =
     events example_holding @ [Error_no_updates, Call_setAborted] \<and>
   fst (updateControl (example_hooks example_moved) example_holding example_moved MAX_DT) =
     Inr example_moved \<and>
   events (snd (updateControl (example_hooks example_moved) example_holding example_moved MAX_DT)) =
     events example_holding @ [Call_controlAlgorithm, Call_publishFeedback] \<and>
   action_server (snd (updateControl (example_hooks example_moved) example_holding example_moved MAX_DT))
     = ACTIVE \<and>
   server_isActive (action_server example_active) \<and> acquired_goal example_active \<and>
   fst (updateControl (example_hooks example_current) example_active example_current (Finite 1)) =
     Inr (example_current\<lparr>velocity := [Finite 0, Finite 0]\<rparr>)"
proof -
  let ?h = "example_hooks example_moved"
  note a = holding_facts(1,2)
  have s: "double_gt (Finite 1) MAX_DT"
    by (simp add: MAX_DT_def)
  have f: "\<not> double_gt MAX_DT MAX_DT"
    by (simp add: MAX_DT_def)
  have pm: "position example_moved \<noteq> []"
    by (simp add: example_moved_def)
  note stale = updateControl_staleness [OF a, of "Finite 1" ?h example_moved, THEN conjunct1, rule_format, OF s]
  note fresh = updateControl_staleness [OF a, of MAX_DT ?h example_moved, THEN conjunct2, rule_format, OF refl]
  have "fst (updateControl ?h example_holding example_moved (Finite 1)) =
      Inr (if position example_moved = [] \<or> has_state example_holding
           then last_state example_holding else zeroed example_moved)"
    using stale by blast
  then have r1: "fst (updateControl ?h example_holding example_moved (Finite 1)) =
      Inr (example_current\<lparr>velocity := [Finite 0, Finite 0]\<rparr>)"
    by (simp add: holding_facts(3,4))
  have "last_state (snd (updateControl ?h example_holding example_moved (Finite 1))) =
      (if position example_moved = [] \<or> has_state example_holding
       then last_state example_holding else zeroed example_moved)"
    using stale by blast
  then have r2: "last_state (snd (updateControl ?h example_holding example_moved (Finite 1))) =
      example_current\<lparr>velocity := [Finite 0, Finite 0]\<rparr>"
    by (simp add: holding_facts(3,4))
  have r3: "action_server (snd (updateControl ?h example_holding example_moved (Finite 1))) = ABORTED"
    using stale by blast
  have "derived (snd (updateControl ?h example_holding example_moved (Finite 1))) = derived example_holding"
    using stale by blast
  then have r4: "derived (snd (updateControl ?h example_holding example_moved (Finite 1))) = 0"
    by (simp add: example_holding_eq)
  have "events (snd (updateControl ?h example_holding example_moved (Finite 1))) =
      events example_holding @ [Error_no_updates, Call_setAborted] @
      (if position example_moved = [] then [Warn_invalid_state] else [])"
    using stale by blast
  then have r5: "events (snd (updateControl ?h example_holding example_moved (Finite 1))) =
      events example_holding @ [Error_no_updates, Call_setAborted]"
    by (simp add: pm)
  have v: "verify_sanity example_moved 0 = Inr True"
    by (simp add: verify_sanity.simps example_moved_def)
  have u: "updateControl ?h example_holding example_moved MAX_DT =
      (Inr example_moved,
       emit Call_publishFeedback (emit Call_controlAlgorithm
         (example_holding\<lparr>derived := 1, action_server := ACTIVE\<rparr>)))"
    by (simp add: updateControl_fresh [OF a f holding_algorithms(1) refl] v Let_def emit_def
        server_isActive_def)
  have r6: "fst (updateControl ?h example_holding example_moved MAX_DT) = Inr example_moved"
    by (simp add: u)
  have r7: "events (snd (updateControl ?h example_holding example_moved MAX_DT)) =
      events example_holding @ [Call_controlAlgorithm, Call_publishFeedback]"
    by (simp add: u emit_def)
  have "action_server (snd (updateControl ?h example_holding example_moved MAX_DT)) =
      snd (snd (controlAlgorithm ?h (derived example_holding) (action_server example_holding)
        example_moved MAX_DT))"
    using fresh by blast
  then have r8: "action_server (snd (updateControl ?h example_holding example_moved MAX_DT)) = ACTIVE"
    by (simp add: holding_algorithms(1))
  note bare = updateControl_staleness [OF example_facts(1,2), of "Finite 1"
      "example_hooks example_current" example_current, THEN conjunct1, rule_format, OF s]
  have z: "zeroed example_current = example_current\<lparr>velocity := [Finite 0, Finite 0]\<rparr>"
    by (simp add: zeroed_def example_current_def)
  have "fst (updateControl (example_hooks example_current) example_active example_current (Finite 1)) =
      Inr (if position example_current = [] \<or> has_state example_active
           then last_state example_active else zeroed example_current)"
    using bare by blast
  moreover have "position example_current \<noteq> []" "\<not> has_state example_active"
    by (simp_all add: example_current_def example_active_eq)
  ultimately have r9: "fst (updateControl (example_hooks example_current) example_active example_current
      (Finite 1)) = Inr (example_current\<lparr>velocity := [Finite 0, Finite 0]\<rparr>)"
    by (simp add: z)
  show ?thesis
    using holding_facts s r1 r2 r3 r4 r5 r6 r7 r8 example_facts(1,2) r9 by blast
qed





text \<open>
  Claim C9. When \<^verbatim>\<open>parseGoal\<close> rejects the incoming goal, \<^verbatim>\<open>goalCB\<close> returns false and
  aborts the goal at once: the Goal Channel is not active afterwards, so \<^verbatim>\<open>isActive()\<close>
  is false, and the cached state and both flags are what they were. When \<^verbatim>\<open>parseGoal\<close>
  accepts it, \<^verbatim>\<open>goalCB\<close> returns true, the acquisition flag is true and the goal is active.
\<close>

theorem goalCB_outcome:
  "(\<not> fst (parseGoal h (derived c) goal) \<longrightarrow>
      fst (goalCB h c goal) = False \<and>
      action_server (snd (goalCB h c goal)) = ABORTED \<and>
      \<not> isActive (snd (goalCB h c goal)) \<and>
      last_state (snd (goalCB h c goal)) = last_state c \<and>
      has_state (snd (goalCB h c goal)) = has_state c \<and>
      acquired_goal (snd (goalCB h c goal)) = acquired_goal c \<and>
      events (snd (goalCB h c goal)) =
        events c @ [Call_acceptNewGoal, Call_parseGoal, Call_setAborted]) \<and>
   (fst (parseGoal h (derived c) goal) \<longrightarrow>
      fst (goalCB h c goal) = True \<and>
      acquired_goal (snd (goalCB h c goal)) = True \<and>
      isActive (snd (goalCB h c goal)) \<and>
      last_state (snd (goalCB h c goal)) = last_state c \<and>
      has_state (snd (goalCB h c goal)) = has_state c)"
  by (simp add: goalCB_def Let_def case_prod_beta emit_def isActive_def
      server_acceptNewGoal_def server_setAborted_def server_isActive_def)

text \<open>C9 on a freshly constructed controller, with a rejected and an accepted goal.\<close>

theorem goalCB_outcome_witness:
  "\<not> fst (parseGoal (example_hooks example_current) (derived (ControllerTemplate 0)) False) \<and>
   goalCB (example_hooks example_current) (ControllerTemplate 0) False =
     (False, \<lparr>action_server = ABORTED, last_state = empty_jointState, has_state = False,
        acquired_goal = False, derived = 0,
        events = [Info_initialized, Call_acceptNewGoal, Call_parseGoal, Call_setAborted]\<rparr>) \<and>
   \<not> isActive (snd (goalCB (example_hooks example_current) (ControllerTemplate 0) False)) \<and>
   fst (parseGoal (example_hooks example_current) (derived (ControllerTemplate 0)) True) \<and>
   acquired_goal (snd (goalCB (example_hooks example_current) (ControllerTemplate 0) True))"
  using goalCB_outcome [of "example_hooks example_current" "ControllerTemplate 0" False]
    goalCB_outcome [of "example_hooks example_current" "ControllerTemplate 0" True]
  by (simp add: goalCB_def Let_def emit_def example_hooks_def ControllerTemplate_def resetFlags_def
      server_acceptNewGoal_def server_setAborted_def server_isActive_def isActive_def)

text \<open>
  Claim C10, as stated, at a returned state with two names, one NaN position and one
  velocity: \<open>name\<close> is longer than both arrays, yet the loop meets the NaN at index 0
  and leaves through \<^verbatim>\<open>lastState\<close> before it reads index 1.
\<close>

theorem verify_sanity_early_exit_counterexample:
  "length (position short_nan_state) < length (name short_nan_state) \<and>
   length (velocity short_nan_state) < length (name short_nan_state) \<and>
   server_isActive (action_server example_active) \<and> acquired_goal example_active \<and>
   \<not> double_gt (Finite (1 / 10)) MAX_DT \<and>
   controlAlgorithm (example_hooks short_nan_state) (derived example_active)
     (action_server example_active) example_current (Finite (1 / 10)) = (short_nan_state, 1, ACTIVE) \<and>
   verify_sanity short_nan_state 0 = Inr False \<and>
   fst (updateControl (example_hooks short_nan_state) example_active example_current (Finite (1 / 10)))
     = Inr (example_current\<lparr>velocity := [Finite 0, Finite 0]\<rparr>) \<and>
   fst (updateControl (example_hooks short_nan_state) example_active example_current (Finite (1 / 10)))
     \<noteq> Inl OutOfRange"
proof -
  have v: "verify_sanity short_nan_state 0 = Inr False"
    by (simp add: verify_sanity.simps short_nan_state_def)
  have "fst (updateControl (example_hooks short_nan_state) example_active example_current (Finite (1 / 10)))
      = Inr (example_current\<lparr>velocity := [Finite 0, Finite 0]\<rparr>)"
    by (simp add: updateControl_fresh [OF example_facts refl] v Let_def emit_def server_isActive_def
        lastState_value)
      (simp add: example_active_eq example_current_def)
  then show ?thesis
    by (simp add: example_facts v) (simp add: short_nan_state_def)
qed

text \<open>
  Claim C10, amended. On the active, non-stale path the sanity loop reads
  \<^verbatim>\<open>ret.position[i]\<close> and \<^verbatim>\<open>ret.velocity[i]\<close> for the indices of \<open>name\<close> with no bounds
  check. When position and velocity are at least as long as \<open>name\<close>, the call returns a
  state. The out-of-range read happens exactly when the loop reaches a missing entry
  before a non-finite one: at some index \<open>k\<close> below the number of names, with every
  entry before \<open>k\<close> present and finite, the position is missing, or the position is
  finite and the velocity is missing. So it happens whenever \<open>name\<close> is longer than one of
  the two arrays and all their entries are finite.
\<close>

theorem updateControl_index_fault:
  assumes "server_isActive (action_server c)" and "acquired_goal c" and "\<not> double_gt dt MAX_DT"
    and alg: "controlAlgorithm h (derived c) (action_server c) cur dt = (ret, d, s)"
  shows "(length (name ret) \<le> length (position ret) \<and> length (name ret) \<le> length (velocity ret) \<longrightarrow>
            (\<exists>r. fst (updateControl h c cur dt) = Inr r)) \<and>
         (fst (updateControl h c cur dt) = Inl OutOfRange \<longleftrightarrow>
            (\<exists>k<length (name ret).
               (\<forall>j<k. j < length (position ret) \<and> j < length (velocity ret) \<and>
                  isfinite (position ret ! j) \<and> isfinite (velocity ret ! j)) \<and>
               (length (position ret) \<le> k \<or> isfinite (position ret ! k) \<and> length (velocity ret) \<le> k))) \<and>
         ((length (position ret) < length (name ret) \<or> length (velocity ret) < length (name ret)) \<and>
          (\<forall>x\<in>set (position ret). isfinite x) \<and> (\<forall>x\<in>set (velocity ret). isfinite x) \<longrightarrow>
            fst (updateControl h c cur dt) = Inl OutOfRange)"
proof -
  define c3 where "c3 = (let c2 = emit Call_publishFeedback (emit Call_controlAlgorithm (c\<lparr>derived := d, action_server := s\<rparr>))
                   in if \<not> server_isActive (action_server c2) then resetInternalState h c2 else c2)"
  note upd = updateControl_fresh [OF assms(1-3) alg c3_def]
  have fault: "fst (updateControl h c cur dt) = Inl f \<longleftrightarrow> verify_sanity ret 0 = Inl f" for f
  proof (cases "verify_sanity ret 0")
    case (Inl g)
    then show ?thesis by (simp add: upd)
  next
    case (Inr b)
    then show ?thesis by (cases b) (simp_all add: upd)
  qed
  have iff: "fst (updateControl h c cur dt) = Inl OutOfRange \<longleftrightarrow>
      (\<exists>k<length (name ret).
         (\<forall>j<k. j < length (position ret) \<and> j < length (velocity ret) \<and>
            isfinite (position ret ! j) \<and> isfinite (velocity ret ! j)) \<and>
         (length (position ret) \<le> k \<or> isfinite (position ret ! k) \<and> length (velocity ret) \<le> k))"
    by (simp add: fault verify_sanity_fault [of ret 0 OutOfRange])
  have ok: "\<exists>r. fst (updateControl h c cur dt) = Inr r"
    if "length (name ret) \<le> length (position ret) \<and> length (name ret) \<le> length (velocity ret)"
  proof (cases "verify_sanity ret 0 = Inr True")
    case True
    then show ?thesis by (simp add: upd)
  next
    case False
    then have "verify_sanity ret 0 = Inr False"
      using that verify_sanity_in_range [of ret 0] by auto
    then show ?thesis by (simp add: upd)
  qed
  have short: "fst (updateControl h c cur dt) = Inl OutOfRange"
    if h: "(length (position ret) < length (name ret) \<or> length (velocity ret) < length (name ret)) \<and>
          (\<forall>x\<in>set (position ret). isfinite x) \<and> (\<forall>x\<in>set (velocity ret). isfinite x)"
  proof -
    define k where "k = min (length (position ret)) (length (velocity ret))"
    have "k < length (name ret)"
      using h by (auto simp: k_def)
    moreover have "\<forall>j<k. j < length (position ret) \<and> j < length (velocity ret) \<and>
        isfinite (position ret ! j) \<and> isfinite (velocity ret ! j)"
      using h by (simp add: k_def)
    moreover have "length (position ret) \<le> k \<or> isfinite (position ret ! k) \<and> length (velocity ret) \<le> k"
      using h by (cases "length (position ret) \<le> length (velocity ret)") (auto simp: k_def min_def)
    ultimately show ?thesis
      unfolding iff by blast
  qed
  show ?thesis
    using ok iff short by blast
qed

text \<open>C10 at a returned state with two names and one velocity, and at an aligned one.\<close>

theorem updateControl_index_fault_witness:
  "server_isActive (action_server example_active) \<and> acquired_goal example_active \<and>
   \<not> double_gt (Finite (1 / 10)) MAX_DT \<and>
   length (velocity short_finite_state) < length (name short_finite_state) \<and>
   fst (updateControl (example_hooks short_finite_state) example_active example_current (Finite (1 / 10)))
     = Inl OutOfRange \<and>
   length (name example_current) \<le> length (position example_current) \<and>
   length (name example_current) \<le> length (velocity example_current) \<and>
   fst (updateControl (example_hooks example_current) example_active example_current (Finite (1 / 10)))
     \<noteq> Inl OutOfRange"
proof -
  note short = updateControl_index_fault [where cur = example_current, OF example_facts,
      of short_finite_state]
  note full = updateControl_index_fault [where cur = example_current, OF example_facts,
      of example_current]
  have s: "length (velocity short_finite_state) < length (name short_finite_state)"
      "\<forall>x\<in>set (position short_finite_state). isfinite x"
      "\<forall>x\<in>set (velocity short_finite_state). isfinite x"
    by (simp_all add: short_finite_state_def)
  have l: "length (name example_current) \<le> length (position example_current)"
      "length (name example_current) \<le> length (velocity example_current)"
    by (simp_all add: example_current_def)
  have r1: "fst (updateControl (example_hooks short_finite_state) example_active example_current
      (Finite (1 / 10))) = Inl OutOfRange"
    using short s by blast
  have "\<exists>r. fst (updateControl (example_hooks example_current) example_active example_current
      (Finite (1 / 10))) = Inr r"
    using full l by blast
  then have r2: "fst (updateControl (example_hooks example_current) example_active example_current
      (Finite (1 / 10))) \<noteq> Inl OutOfRange"
    by auto
  show ?thesis
    using example_facts(1,2,3) s(1) r1 l r2 by blast
qed

text \<open>
  Claim C2. A controller that has not acquired a goal and holds no state yet (as the
  constructor leaves it) is given any sequence of \<^verbatim>\<open>updateControl\<close> calls. Every call
  returns a state whose velocities are all zero; once a valid current state has been
  seen, up to and including this call, the returned state is the first valid one with
  its velocities zeroed, so its position is that state's position; before that it is the
  empty initial cache. And a call with an empty current state on any controller without
  an acquired goal returns the cached state and leaves the cache and its flag as they are.
\<close>

theorem idle_hold:
  assumes "\<not> acquired_goal c" and "\<not> has_state c" and "last_state c = empty_jointState"
  shows "(\<forall>k<length ins. \<exists>r. run_updates h c ins ! k = Inr r \<and>
            (\<forall>v\<in>set (velocity r). v = Finite 0) \<and>
            (case find valid_input (take (Suc k) ins) of
               None \<Rightarrow> r = empty_jointState
             | Some x \<Rightarrow> position r = position (fst x) \<and> r = zeroed (fst x))) \<and>
         (\<not> acquired_goal c' \<and> position cur = [] \<longrightarrow>
            fst (updateControl h c' cur dt) = Inr (last_state c') \<and>
            last_state (snd (updateControl h c' cur dt)) = last_state c' \<and>
            has_state (snd (updateControl h c' cur dt)) = has_state c')"
proof (intro conjI allI impI)
  fix k assume k: "k < length ins"
  show "\<exists>r. run_updates h c ins ! k = Inr r \<and>
            (\<forall>v\<in>set (velocity r). v = Finite 0) \<and>
            (case find valid_input (take (Suc k) ins) of
               None \<Rightarrow> r = empty_jointState
             | Some x \<Rightarrow> position r = position (fst x) \<and> r = zeroed (fst x))"
  proof (cases "find valid_input (take (Suc k) ins)")
    case None
    then have "run_updates h c ins ! k = Inr empty_jointState"
      using run_updates_unseeded [OF assms(1,2) k, of h] assms(3) by simp
    then show ?thesis
      using None by (simp add: empty_jointState_def)
  next
    case (Some x)
    then have "run_updates h c ins ! k = Inr (zeroed (fst x))"
      using run_updates_unseeded [OF assms(1,2) k, of h] by simp
    then show ?thesis
      using Some by (simp add: zeroed_def)
  qed
next
  assume idle: "\<not> acquired_goal c' \<and> position cur = []"
  then have upd: "updateControl h c' cur dt = (Inr (fst (lastState c' cur)), snd (lastState c' cur))"
    by (simp add: updateControl_idle)
  show "fst (updateControl h c' cur dt) = Inr (last_state c')"
    using idle by (simp add: upd lastState_value)
  show "last_state (snd (updateControl h c' cur dt)) = last_state c'"
    using idle lastState_cache [of c' cur] by (simp add: upd lastState_value)
  show "has_state (snd (updateControl h c' cur dt)) = has_state c'"
    using idle by (simp add: upd lastState_has_state)
qed

text \<open>
  C2 on a constructed controller and four calls: an empty state, a valid one, a
  different valid one, an empty one.
\<close>

theorem idle_hold_witness:
  "\<not> acquired_goal (ControllerTemplate (0::nat)) \<and> \<not> has_state (ControllerTemplate (0::nat)) \<and>
   last_state (ControllerTemplate (0::nat)) = empty_jointState \<and>
   length example_inputs = 4 \<and>
   run_updates (example_hooks example_current) (ControllerTemplate 0) example_inputs ! 0
     = Inr empty_jointState \<and>
   run_updates (example_hooks example_current) (ControllerTemplate 0) example_inputs ! 3
     = Inr (example_current\<lparr>velocity := [Finite 0, Finite 0]\<rparr>)"
proof -
  have c: "\<not> acquired_goal (ControllerTemplate (0::nat))" "\<not> has_state (ControllerTemplate (0::nat))"
      "last_state (ControllerTemplate (0::nat)) = empty_jointState"
    by (simp_all add: ControllerTemplate_def resetFlags_def emit_def)
  note hold = conjunct1 [OF idle_hold [OF c, of example_inputs "example_hooks example_current"]]
  have n: "length example_inputs = 4"
    by (simp add: example_inputs_def)
  have f0: "find valid_input (take (Suc 0) example_inputs) = None"
    by (simp add: example_inputs_def valid_input_def empty_jointState_def)
  have f3: "find valid_input (take (Suc 3) example_inputs) = Some (example_current, Finite (1 / 100))"
    by (simp add: example_inputs_def valid_input_def empty_jointState_def example_current_def)
  have "0 < length example_inputs"
    by (simp add: n)
  from hold [rule_format, OF this] obtain r
    where "run_updates (example_hooks example_current) (ControllerTemplate 0) example_inputs ! 0 = Inr r"
      and "case find valid_input (take (Suc 0) example_inputs) of
             None \<Rightarrow> r = empty_jointState
           | Some x \<Rightarrow> position r = position (fst x) \<and> r = zeroed (fst x)"
    by blast
  then have r0: "run_updates (example_hooks example_current) (ControllerTemplate 0) example_inputs ! 0
      = Inr empty_jointState"
    unfolding f0 by simp
  have "3 < length example_inputs"
    by (simp add: n)
  from hold [rule_format, OF this] obtain r
    where "run_updates (example_hooks example_current) (ControllerTemplate 0) example_inputs ! 3 = Inr r"
      and "case find valid_input (take (Suc 3) example_inputs) of
             None \<Rightarrow> r = empty_jointState
           | Some x \<Rightarrow> position r = position (fst x) \<and> r = zeroed (fst x)"
    by blast
  then have r3: "run_updates (example_hooks example_current) (ControllerTemplate 0) example_inputs ! 3
      = Inr (zeroed example_current)"
    unfolding f3 by simp
  have z: "zeroed example_current = example_current\<lparr>velocity := [Finite 0, Finite 0]\<rparr>"
    by (simp add: zeroed_def example_current_def)
  show ?thesis
    using c n r0 r3 [unfolded z] by blast
qed

section \<open>Wrench manager: properties\<close>

subsection \<open>The searches and the retry loop\<close>

lemma linear_search_None: "linear_search ks key i = None \<longleftrightarrow> key \<notin> set ks"
  by (induction ks arbitrary: i) auto

lemma linear_search_Some:
  "linear_search ks key i = Some n \<Longrightarrow>
     i \<le> n \<and> n - i < length ks \<and> ks ! (n - i) = key \<and> (\<forall>j<n - i. ks ! j \<noteq> key)"
proof (induction ks arbitrary: i)
  case Nil
  then show ?case by simp
next
  case (Cons k ks)
  show ?case
  proof (cases "k = key")
    case True
    then show ?thesis using Cons.prems by simp
  next
    case False
    then have "linear_search ks key (i + 1) = Some n"
      using Cons.prems by simp
    from Cons.IH [OF this]
    have ih: "i + 1 \<le> n" "n - (i + 1) < length ks" "ks ! (n - (i + 1)) = key"
        "\<forall>j<n - (i + 1). ks ! j \<noteq> key"
      by auto
    have eq: "n - i = Suc (n - (i + 1))"
      using ih(1) by simp
    show ?thesis
      unfolding eq using ih False by (auto simp: nth_Cons split: nat.splits)
  qed
qed

lemma getIndex_None: "getIndex m key = None \<longleftrightarrow> key \<notin> set (manager_index m)"
  by (simp add: getIndex_def linear_search_None)

lemma getIndex_Some:
  assumes "getIndex m key = Some arm"
  shows "arm < length (manager_index m)" and "manager_index m ! arm = key"
  using linear_search_Some [of "manager_index m" key 0 arm] assms
  by (simp_all add: getIndex_def)

lemma getIndex_registered:
  assumes "key \<in> set (manager_index m)"
  obtains arm where "getIndex m key = Some arm"
  using assms getIndex_None [of m key] by (cases "getIndex m key") auto

lemma find_sensor_first:
  assumes "n < length frames" and "frames ! n = fid" and "i \<le> n"
    and "\<forall>j. i \<le> j \<and> j < n \<longrightarrow> frames ! j \<noteq> fid"
  shows "find_sensor frames fid i = int n"
  using assms
proof (induction frames fid i rule: find_sensor.induct)
  case (1 frames fid i)
  have lt: "i < length frames"
    using "1.prems" by simp
  show ?case
  proof (cases "fid = frames ! i")
    case True
    then have "i = n"
      using "1.prems" by (metis le_neq_implies_less order_refl)
    then show ?thesis
      using lt True by (subst find_sensor.simps) simp
  next
    case False
    then have "i \<noteq> n" using "1.prems"(2) by auto
    then have "find_sensor frames fid (i + 1) = int n"
      using "1.IH" [OF lt False] "1.prems" by auto
    then show ?thesis
      using lt False by (subst find_sensor.simps) simp
  qed
qed

lemma find_sensor_result:
  "find_sensor frames fid i = - 1 \<and> (\<forall>j. i \<le> j \<and> j < length frames \<longrightarrow> frames ! j \<noteq> fid) \<or>
   (\<exists>n. find_sensor frames fid i = int n \<and> i \<le> n \<and> n < length frames \<and> frames ! n = fid)"
proof (induction frames fid i rule: find_sensor.induct)
  case (1 frames fid i)
  show ?case
  proof (cases "i < length frames")
    case False
    then have "find_sensor frames fid i = - 1"
      by (subst find_sensor.simps) simp
    then show ?thesis using False by auto
  next
    case lt: True
    show ?thesis
    proof (cases "fid = frames ! i")
      case True
      then have "find_sensor frames fid i = int i"
        using lt by (subst find_sensor.simps) simp
      then show ?thesis using lt True by auto
    next
      case False
      then have step: "find_sensor frames fid i = find_sensor frames fid (i + 1)"
        using lt by (subst find_sensor.simps) simp
      from "1.IH" [OF lt False] show ?thesis
      proof
        assume a: "find_sensor frames fid (i + 1) = - 1 \<and>
            (\<forall>j. i + 1 \<le> j \<and> j < length frames \<longrightarrow> frames ! j \<noteq> fid)"
        have "\<forall>j. i \<le> j \<and> j < length frames \<longrightarrow> frames ! j \<noteq> fid"
        proof (intro allI impI)
          fix j assume "i \<le> j \<and> j < length frames"
          then show "frames ! j \<noteq> fid"
            using a False by (cases "j = i") auto
        qed
        then show ?thesis using a step by simp
      next
        assume "\<exists>n. find_sensor frames fid (i + 1) = int n \<and> i + 1 \<le> n \<and> n < length frames \<and> frames ! n = fid"
        then show ?thesis using step by auto
      qed
    qed
  qed
qed


lemma transform_loop_all_fail:
  assumes "0 \<le> a" and "\<forall>k. a \<le> int k \<and> int k < mx \<longrightarrow> listener k target p = None"
  shows "transform_loop listener target mx a p ev =
     (max a mx, p,
      ev @ concat (replicate (nat (mx - a)) [Call_transformPose, Warn_tf_exception, Sleep (1 / 10)]))"
  using assms
proof (induction listener target mx a p ev rule: transform_loop.induct)
  case (1 listener target mx a p ev)
  show ?case
  proof (cases "a < mx")
    case False
    then show ?thesis by (subst transform_loop.simps) (simp add: max_def)
  next
    case True
    have none: "listener (nat a) target p = None"
      using "1.prems" True by simp
    have n: "nat (mx - a) = Suc (nat (mx - (a + 1)))"
      using True by simp
    have "transform_loop listener target mx a p ev =
        transform_loop listener target mx (a + 1) p
          (ev @ [Call_transformPose, Warn_tf_exception, Sleep (1 / 10)])"
      using True none by (subst transform_loop.simps) simp
    also have "\<dots> = (max (a + 1) mx, p,
        (ev @ [Call_transformPose, Warn_tf_exception, Sleep (1 / 10)]) @
        concat (replicate (nat (mx - (a + 1))) [Call_transformPose, Warn_tf_exception, Sleep (1 / 10)]))"
      using "1.IH" [OF True none] "1.prems" by simp
    finally show ?thesis
      using True by (simp add: n max_def)
  qed
qed

lemma transform_loop_first_success:
  assumes "0 \<le> a" and "a \<le> int k" and "int k < mx" and "listener k target p = Some q"
    and "\<forall>j. a \<le> int j \<and> j < k \<longrightarrow> listener j target p = None"
  shows "transform_loop listener target mx a p ev =
     (int k, q,
      ev @ concat (replicate (k - nat a) [Call_transformPose, Warn_tf_exception, Sleep (1 / 10)]) @
        [Call_transformPose])"
  using assms
proof (induction listener target mx a p ev rule: transform_loop.induct)
  case (1 listener target mx a p ev)
  have lt: "a < mx"
    using "1.prems" by simp
  show ?case
  proof (cases "int k = a")
    case True
    then have "listener (nat a) target p = Some q"
      using "1.prems"(4) by (metis nat_int)
    then have "transform_loop listener target mx a p ev = (a, q, ev @ [Call_transformPose])"
      using lt by (subst transform_loop.simps) simp
    then show ?thesis
      using True by auto
  next
    case False
    then have less: "nat a < k"
      using "1.prems"(1,2) by linarith
    then have none: "listener (nat a) target p = None"
      using "1.prems"(1,5) by simp
    have n: "k - nat a = Suc (k - nat (a + 1))"
      using less "1.prems"(1) by (simp add: nat_add_distrib)
    have "transform_loop listener target mx a p ev =
        transform_loop listener target mx (a + 1) p
          (ev @ [Call_transformPose, Warn_tf_exception, Sleep (1 / 10)])"
      using lt none by (subst transform_loop.simps) simp
    also have "\<dots> = (int k, q,
        (ev @ [Call_transformPose, Warn_tf_exception, Sleep (1 / 10)]) @
        concat (replicate (k - nat (a + 1)) [Call_transformPose, Warn_tf_exception, Sleep (1 / 10)]) @
        [Call_transformPose])"
      using "1.IH" [OF lt none] "1.prems" False by simp
    finally show ?thesis
      by (simp add: n)
  qed
qed

lemma transform_loop_calls:
  assumes "0 \<le> a"
  shows "length (filter (\<lambda>e. e = Call_transformPose) (snd (snd (transform_loop listener target mx a p ev))))
           \<le> length (filter (\<lambda>e. e = Call_transformPose) ev) + nat (mx - a)"
  using assms
proof (induction listener target mx a p ev rule: transform_loop.induct)
  case (1 listener target mx a p ev)
  show ?case
  proof (cases "a < mx")
    case False
    then show ?thesis by (subst transform_loop.simps) simp
  next
    case lt: True
    show ?thesis
    proof (cases "listener (nat a) target p")
      case (Some q)
      then have "transform_loop listener target mx a p ev = (a, q, ev @ [Call_transformPose])"
        using lt by (subst transform_loop.simps) simp
      then show ?thesis using lt by simp
    next
      case None
      then have "transform_loop listener target mx a p ev =
          transform_loop listener target mx (a + 1) p
            (ev @ [Call_transformPose, Warn_tf_exception, Sleep (1 / 10)])"
        using lt by (subst transform_loop.simps) simp
      moreover have "nat (mx - a) = Suc (nat (mx - (a + 1)))"
        using lt by simp
      ultimately show ?thesis
        using "1.IH" [OF lt None] "1.prems" by simp
    qed
  qed
qed

subsection \<open>The example registry\<close>

lemma example_transform:
  "transform_loop (transformPose example_externals) target 5 0 (identity_pose_in sf) [] =
     (2, \<lparr>ps_header = \<lparr>stamp = 0, frame_id = target\<rparr>, ps_pose = example_shift\<rparr>,
      [Call_transformPose, Warn_tf_exception, Sleep (1 / 10),
       Call_transformPose, Warn_tf_exception, Sleep (1 / 10), Call_transformPose])"
  using transform_loop_first_success [of 0 2 5 "transformPose example_externals" target
      "identity_pose_in sf" "\<lparr>ps_header = \<lparr>stamp = 0, frame_id = target\<rparr>, ps_pose = example_shift\<rparr>" "[]"]
  by (simp add: example_externals_def numeral_2_eq_2)

lemma example_register:
  assumes "ee \<notin> set (manager_index m)" and "max_tf_attempts m = 5"
    and "key = ''left/sensor_calib'' \<or> key = ''right/sensor_calib''"
  shows "initializeWrenchComm example_externals m ee sf gf topic key =
     (True,
      m\<lparr>calibration_matrix := calibration_matrix m @ [example_calib],
        manager_index := manager_index m @ [ee],
        sensor_frame := sensor_frame m @ [sf],
        sensor_to_gripping_point := sensor_to_gripping_point m @ [example_shift],
        measured_wrench := measured_wrench m @ [Wrench (0, 0, 0) (0, 0, 0)],
        ft_sub := ft_sub m @ [topic],
        gripping_frame := gripping_frame m @ [gf],
        processed_ft_pub := processed_ft_pub m @ [topic @ ''_converted'']\<rparr>,
      [Call_transformPose, Warn_tf_exception, Sleep (1 / 10),
       Call_transformPose, Warn_tf_exception, Sleep (1 / 10), Call_transformPose])"
proof -
  have g: "getIndex m ee = None"
    using assms(1) by (simp add: getIndex_None)
  have c: "parseMatrixData example_externals key = Some example_calib"
    using assms(3) by (auto simp: example_externals_def)
  have d: "cols example_calib = 6" "rows example_calib = 6"
    by (simp_all add: example_calib_def)
  have k: "poseMsgToKDL example_externals example_shift = example_shift"
    by (simp add: example_externals_def)
  show ?thesis
    by (simp add: initializeWrenchComm_def g assms(2) example_transform add_comm_def c d k Wrench_Zero_def)
qed

lemma example_manager_eq:
  "example_manager =
     \<lparr>max_tf_attempts = 5, manager_index = [''left_arm''], sensor_frame = [''left_sensor''],
      gripping_frame = [''left_grip''], sensor_to_gripping_point = [example_shift],
      measured_wrench = [Wrench (0, 0, 0) (0, 0, 0)], calibration_matrix = [example_calib],
      ft_sub = [''left_ft''], processed_ft_pub = [''left_ft_converted'']\<rparr>"
  by (simp add: example_manager_def example_register WrenchManager_def)

lemma shared_frame_manager_eq:
  "shared_frame_manager =
     \<lparr>max_tf_attempts = 5, manager_index = [''left_arm'', ''right_arm''],
      sensor_frame = [''ft_link'', ''ft_link''],
      gripping_frame = [''left_grip'', ''right_grip''],
      sensor_to_gripping_point = [example_shift, example_shift],
      measured_wrench = [Wrench (0, 0, 0) (0, 0, 0), Wrench (0, 0, 0) (0, 0, 0)],
      calibration_matrix = [example_calib, example_calib],
      ft_sub = [''left_ft'', ''right_ft''],
      processed_ft_pub = [''left_ft_converted'', ''right_ft_converted'']\<rparr>"
proof -
  have 1: "initializeWrenchComm example_externals (WrenchManager None)
      ''left_arm'' ''ft_link'' ''left_grip'' ''left_ft'' ''left/sensor_calib'' =
     (True,
      \<lparr>max_tf_attempts = 5, manager_index = [''left_arm''], sensor_frame = [''ft_link''],
       gripping_frame = [''left_grip''], sensor_to_gripping_point = [example_shift],
       measured_wrench = [Wrench (0, 0, 0) (0, 0, 0)], calibration_matrix = [example_calib],
       ft_sub = [''left_ft''], processed_ft_pub = [''left_ft_converted'']\<rparr>,
      [Call_transformPose, Warn_tf_exception, Sleep (1 / 10),
       Call_transformPose, Warn_tf_exception, Sleep (1 / 10), Call_transformPose])"
    by (simp add: example_register WrenchManager_def)
  show ?thesis
    unfolding shared_frame_manager_def 1 by (simp add: example_register)
qed

lemma wm_inv_examples: "wm_inv example_manager" "wm_inv shared_frame_manager"
  by (simp_all add: wm_inv_def example_manager_eq shared_frame_manager_eq example_calib_def)


subsection \<open>The registry stays well formed\<close>

text \<open>
  The constructor gives a well-formed registry, and registration and ingestion keep it
  well formed; on a well-formed registry ingestion never leaves defined behaviour.
\<close>

lemma wm_inv_WrenchManager: "wm_inv (WrenchManager param)"
  by (simp add: wm_inv_def WrenchManager_def)

lemma wm_inv_add_comm:
  assumes "wm_inv m" and "end_effector \<notin> set (manager_index m)"
  shows "wm_inv (fst (snd (add_comm w m end_effector sf gf topic key p ev)))"
  using assms by (auto simp: add_comm_def wm_inv_def split: option.splits)

lemma wm_inv_initializeWrenchComm:
  assumes "wm_inv m"
  shows "wm_inv (fst (snd (initializeWrenchComm w m end_effector sf gf topic key)))"
proof (cases "getIndex m end_effector")
  case (Some a)
  then show ?thesis using assms by (simp add: initializeWrenchComm_def)
next
  case None
  then have "end_effector \<notin> set (manager_index m)"
    by (simp add: getIndex_None)
  then show ?thesis
    using assms None wm_inv_add_comm [of m end_effector w sf gf topic key]
    by (simp add: initializeWrenchComm_def Let_def case_prod_beta)
qed

lemma wm_inv_forceTorqueCB:
  assumes "wm_inv m"
  shows "\<exists>m' ev. forceTorqueCB m msg = Inr (m', ev) \<and> wm_inv m'"
proof -
  let ?fid = "frame_id (ws_header msg)"
  from find_sensor_result [of "sensor_frame m" ?fid 0] show ?thesis
  proof
    assume "find_sensor (sensor_frame m) ?fid 0 = - 1 \<and>
        (\<forall>j. 0 \<le> j \<and> j < length (sensor_frame m) \<longrightarrow> sensor_frame m ! j \<noteq> ?fid)"
    then show ?thesis using assms by (simp add: forceTorqueCB_def)
  next
    assume "\<exists>n. find_sensor (sensor_frame m) ?fid 0 = int n \<and> 0 \<le> n \<and>
        n < length (sensor_frame m) \<and> sensor_frame m ! n = ?fid"
    then obtain n where n: "find_sensor (sensor_frame m) ?fid 0 = int n" "n < length (sensor_frame m)"
      by blast
    have len: "n < length (calibration_matrix m)" "n < length (measured_wrench m)"
      using assms n(2) by (simp_all add: wm_inv_def)
    have "rows (calibration_matrix m ! n) = 6 \<and> cols (calibration_matrix m ! n) = 6"
      using assms len(1) by (simp add: wm_inv_def list_all_length)
    then obtain v where v: "matrix_times_vec6 (calibration_matrix m ! n) (wrenchMsgToEigen (ws_wrench msg)) = Inr v"
      by (simp add: matrix_times_vec6_def)
    have "forceTorqueCB m msg =
        Inr (m\<lparr>measured_wrench := (measured_wrench m)[n := wrenchEigenToKDL v]\<rparr>, [])"
      using n(1) len v by (simp add: forceTorqueCB_def Let_def)
    moreover have "wm_inv (m\<lparr>measured_wrench := (measured_wrench m)[n := wrenchEigenToKDL v]\<rparr>)"
      using assms by (simp add: wm_inv_def)
    ultimately show ?thesis by blast
  qed
qed

subsection \<open>Further facts\<close>

lemma add_comm_events:
  "\<exists>tl. snd (snd (add_comm w m end_effector sf gf topic key p ev)) = ev @ tl \<and>
        Call_transformPose \<notin> set tl"
  by (auto simp: add_comm_def split: option.splits)

lemma wrench_roundtrip [simp]:
  "wrenchEigenToKDL (wrenchKDLToEigen k) = k"
  "wrenchKDLToEigen (wrenchEigenToKDL v) = v"
proof -
  obtain fx fy fz tx ty tz where "k = Wrench (fx, fy, fz) (tx, ty, tz)"
    by (cases k) (metis prod_cases3)
  then show "wrenchEigenToKDL (wrenchKDLToEigen k) = k" by simp
  show "wrenchKDLToEigen (wrenchEigenToKDL v) = v" by (cases v) simp
qed

lemma example_product:
  "matrix_times_vec6 example_calib (wrenchMsgToEigen (ws_wrench (example_sample frame)))
     = Inr (Vec6 2 4 6 8 10 12)"
  by (simp add: matrix_times_vec6_def example_calib_def example_sample_def)

lemma example_ingest:
  "forceTorqueCB example_manager (example_sample ''left_sensor'') = Inr (example_loaded, [])"
proof -
  have "find_sensor (sensor_frame example_manager) ''left_sensor'' 0 = 0"
    by (simp add: find_sensor.simps example_manager_eq)
  then show ?thesis
    by (simp add: forceTorqueCB_def example_sample_def Let_def)
      (simp add: example_manager_eq example_product [unfolded example_sample_def, simplified]
        example_loaded_def)
qed

subsection \<open>Claims about the wrench manager\<close>

text \<open>
  Claim C6. For an end-effector name that is already registered, \<^verbatim>\<open>initializeWrenchComm\<close>
  returns false, whatever its other arguments are, and the manager is exactly what it
  was: every vector of the registry, so every calibration matrix, transform, cached
  wrench and frame name of the earlier registrations. It only writes the error line.
\<close>

theorem initializeWrenchComm_duplicate:
  assumes "end_effector \<in> set (manager_index m)"
  shows "initializeWrenchComm w m end_effector sf gf topic key = (False, m, [Error_already_initialized])"
proof -
  obtain a where "getIndex m end_effector = Some a"
    using assms by (rule getIndex_registered)
  then show ?thesis
    by (simp add: initializeWrenchComm_def)
qed

text \<open>
  C6 on the example: the first registration of \<open>left_arm\<close> succeeds, the second one, with
  other frames and another calibration key, is refused and changes nothing.
\<close>

theorem initializeWrenchComm_duplicate_witness:
  "initializeWrenchComm example_externals (WrenchManager None)
     ''left_arm'' ''left_sensor'' ''left_grip'' ''left_ft'' ''left/sensor_calib''
     = (True, example_manager,
        [Call_transformPose, Warn_tf_exception, Sleep (1 / 10),
         Call_transformPose, Warn_tf_exception, Sleep (1 / 10), Call_transformPose]) \<and>
   ''left_arm'' \<in> set (manager_index example_manager) \<and>
   initializeWrenchComm example_externals example_manager
     ''left_arm'' ''other_sensor'' ''other_grip'' ''other_ft'' ''right/sensor_calib''
     = (False, example_manager, [Error_already_initialized])"
proof -
  have r: "''left_arm'' \<in> set (manager_index example_manager)"
    by (simp add: example_manager_eq)
  have f: "initializeWrenchComm example_externals (WrenchManager None)
     ''left_arm'' ''left_sensor'' ''left_grip'' ''left_ft'' ''left/sensor_calib''
     = (True, example_manager,
        [Call_transformPose, Warn_tf_exception, Sleep (1 / 10),
         Call_transformPose, Warn_tf_exception, Sleep (1 / 10), Call_transformPose])"
    by (simp add: example_register example_manager_eq WrenchManager_def)
  show ?thesis
    using f r initializeWrenchComm_duplicate [OF r, of example_externals
        "''other_sensor''" "''other_grip''" "''other_ft''" "''right/sensor_calib''"]
    by blast
qed

text \<open>
  Claim C7. When the calibration lookup finds nothing, or finds a matrix that is not 6 by
  6, \<^verbatim>\<open>initializeWrenchComm\<close> returns false and the manager is unchanged: no channel is
  appended and the existing ones are as before.
\<close>

theorem initializeWrenchComm_bad_calibration:
  assumes "parseMatrixData w key = None \<or>
           (\<exists>C. parseMatrixData w key = Some C \<and> (rows C \<noteq> 6 \<or> cols C \<noteq> 6))"
  shows "fst (initializeWrenchComm w m end_effector sf gf topic key) = False \<and>
         fst (snd (initializeWrenchComm w m end_effector sf gf topic key)) = m"
proof -
  have "fst (add_comm w m end_effector sf gf topic key p ev) = False \<and>
      fst (snd (add_comm w m end_effector sf gf topic key p ev)) = m" for p ev
    using assms by (auto simp: add_comm_def)
  then show ?thesis
    by (simp add: initializeWrenchComm_def Let_def case_prod_beta split: option.splits)
qed

text \<open>
  C7 on the example, with a channel already registered: matrices of shape 5 by 6, 6 by 5
  and 0 by 0, and an absent key.
\<close>

theorem initializeWrenchComm_bad_calibration_witness:
  "map_option (\<lambda>C. (rows C, cols C)) (parseMatrixData example_externals ''m5x6'') = Some (5, 6) \<and>
   map_option (\<lambda>C. (rows C, cols C)) (parseMatrixData example_externals ''m6x5'') = Some (6, 5) \<and>
   map_option (\<lambda>C. (rows C, cols C)) (parseMatrixData example_externals ''m0x0'') = Some (0, 0) \<and>
   parseMatrixData example_externals ''absent'' = None \<and>
   fst (initializeWrenchComm example_externals example_manager
     ''right_arm'' ''right_sensor'' ''right_grip'' ''right_ft'' ''m5x6'') = False \<and>
   fst (snd (initializeWrenchComm example_externals example_manager
     ''right_arm'' ''right_sensor'' ''right_grip'' ''right_ft'' ''m5x6'')) = example_manager \<and>
   fst (initializeWrenchComm example_externals example_manager
     ''right_arm'' ''right_sensor'' ''right_grip'' ''right_ft'' ''m6x5'') = False \<and>
   fst (snd (initializeWrenchComm example_externals example_manager
     ''right_arm'' ''right_sensor'' ''right_grip'' ''right_ft'' ''m6x5'')) = example_manager \<and>
   fst (initializeWrenchComm example_externals example_manager
     ''right_arm'' ''right_sensor'' ''right_grip'' ''right_ft'' ''m0x0'') = False \<and>
   fst (snd (initializeWrenchComm example_externals example_manager
     ''right_arm'' ''right_sensor'' ''right_grip'' ''right_ft'' ''m0x0'')) = example_manager \<and>
   fst (initializeWrenchComm example_externals example_manager
     ''right_arm'' ''right_sensor'' ''right_grip'' ''right_ft'' ''absent'') = False \<and>
   fst (snd (initializeWrenchComm example_externals example_manager
     ''right_arm'' ''right_sensor'' ''right_grip'' ''right_ft'' ''absent'')) = example_manager"
proof -
  have p: "map_option (\<lambda>C. (rows C, cols C)) (parseMatrixData example_externals ''m5x6'') = Some (5, 6)"
      "map_option (\<lambda>C. (rows C, cols C)) (parseMatrixData example_externals ''m6x5'') = Some (6, 5)"
      "map_option (\<lambda>C. (rows C, cols C)) (parseMatrixData example_externals ''m0x0'') = Some (0, 0)"
      "parseMatrixData example_externals ''absent'' = None"
    by (simp_all add: example_externals_def)
  have h: "parseMatrixData example_externals key = None \<or>
      (\<exists>C. parseMatrixData example_externals key = Some C \<and> (rows C \<noteq> 6 \<or> cols C \<noteq> 6))"
    if "key \<in> {''m5x6'', ''m6x5'', ''m0x0'', ''absent''}" for key
    using that by (auto simp: example_externals_def)
  note t = initializeWrenchComm_bad_calibration [where w = example_externals and m = example_manager
      and end_effector = "''right_arm''" and sf = "''right_sensor''" and gf = "''right_grip''"
      and topic = "''right_ft''"]
  show ?thesis
    using p t [OF h [of "''m5x6''"]] t [OF h [of "''m6x5''"]] t [OF h [of "''m0x0''"]]
      t [OF h [of "''absent''"]]
    by simp
qed

text \<open>
  Claim C8. \<^verbatim>\<open>initializeWrenchComm\<close> calls the frame resolver at most \<open>max_tf_attempts\<close>
  times, and a manager built without the parameter has \<open>max_tf_attempts = 5\<close>. For a
  name that is not registered yet: when every attempt below the bound fails, it returns
  false, leaves the manager unchanged and has slept 0.1 after each failed attempt. When
  attempt \<open>k\<close> below the bound is the first to succeed, with the pose \<open>q\<close>, it goes on
  to the calibration part after \<open>k\<close> failed attempts, each followed by a sleep of 0.1
  (no sleep follows the success): with an absent or ill-shaped calibration matrix it
  returns false there and the manager is unchanged, and with a 6 by 6 matrix it returns
  true and appends the channel, whose static transform is the frame of \<open>q\<close>, the first
  successful resolution.
\<close>

theorem initializeWrenchComm_transform_retries:
  "length (filter (\<lambda>e. e = Call_transformPose)
      (snd (snd (initializeWrenchComm w m end_effector sf gf topic key)))) \<le> nat (max_tf_attempts m) \<and>
   (end_effector \<notin> set (manager_index m) \<longrightarrow>
      ((\<forall>k. int k < max_tf_attempts m \<longrightarrow> transformPose w k gf (identity_pose_in sf) = None) \<longrightarrow>
         initializeWrenchComm w m end_effector sf gf topic key =
           (False, m,
            concat (replicate (nat (max_tf_attempts m))
              [Call_transformPose, Warn_tf_exception, Sleep (1 / 10)]) @ [Error_no_transform])) \<and>
      (int k < max_tf_attempts m \<and> transformPose w k gf (identity_pose_in sf) = Some q \<and>
       (\<forall>j<k. transformPose w j gf (identity_pose_in sf) = None) \<longrightarrow>
         initializeWrenchComm w m end_effector sf gf topic key =
           add_comm w m end_effector sf gf topic key q
             (concat (replicate k [Call_transformPose, Warn_tf_exception, Sleep (1 / 10)]) @
              [Call_transformPose]) \<and>
         (parseMatrixData w key = None \<longrightarrow>
            initializeWrenchComm w m end_effector sf gf topic key =
              (False, m,
               concat (replicate k [Call_transformPose, Warn_tf_exception, Sleep (1 / 10)]) @
               [Call_transformPose, Error_missing_calibration])) \<and>
         (\<forall>C. parseMatrixData w key = Some C \<and> (cols C \<noteq> 6 \<or> rows C \<noteq> 6) \<longrightarrow>
            initializeWrenchComm w m end_effector sf gf topic key =
              (False, m,
               concat (replicate k [Call_transformPose, Warn_tf_exception, Sleep (1 / 10)]) @
               [Call_transformPose, Error_not_6x6 (rows C) (cols C)])) \<and>
         (\<forall>C. parseMatrixData w key = Some C \<and> cols C = 6 \<and> rows C = 6 \<longrightarrow>
            initializeWrenchComm w m end_effector sf gf topic key =
              (True,
               m\<lparr>calibration_matrix := calibration_matrix m @ [C],
                 manager_index := manager_index m @ [end_effector],
                 sensor_frame := sensor_frame m @ [sf],
                 sensor_to_gripping_point := sensor_to_gripping_point m @ [poseMsgToKDL w (ps_pose q)],
                 measured_wrench := measured_wrench m @ [Wrench_Zero],
                 ft_sub := ft_sub m @ [topic],
                 gripping_frame := gripping_frame m @ [gf],
                 processed_ft_pub := processed_ft_pub m @ [topic @ ''_converted'']\<rparr>,
               concat (replicate k [Call_transformPose, Warn_tf_exception, Sleep (1 / 10)]) @
               [Call_transformPose]) \<and>
            sensor_to_gripping_point (fst (snd (initializeWrenchComm w m end_effector sf gf topic key))) =
              sensor_to_gripping_point m @ [poseMsgToKDL w (ps_pose q)]))) \<and>
   max_tf_attempts (WrenchManager None :: ('a::{zero,one,plus,times}, 'f) wrenchManager) = 5"
proof -
  let ?loop = "transform_loop (transformPose w) gf (max_tf_attempts m) 0 (identity_pose_in sf) []"
  let ?fail = "[Call_transformPose, Warn_tf_exception, Sleep (1 / 10)]"
  have count: "length (filter (\<lambda>e. e = Call_transformPose)
      (snd (snd (initializeWrenchComm w m end_effector sf gf topic key)))) \<le> nat (max_tf_attempts m)"
  proof (cases "getIndex m end_effector")
    case (Some a)
    then show ?thesis by (simp add: initializeWrenchComm_def)
  next
    case None
    have b: "length (filter (\<lambda>e. e = Call_transformPose) (snd (snd ?loop))) \<le> nat (max_tf_attempts m)"
      using transform_loop_calls [of 0 "transformPose w" gf "max_tf_attempts m" "identity_pose_in sf" "[]"]
      by simp
    obtain tl where tl: "snd (snd (add_comm w m end_effector sf gf topic key (fst (snd ?loop)) (snd (snd ?loop))))
        = snd (snd ?loop) @ tl" "Call_transformPose \<notin> set tl"
      using add_comm_events by blast
    have f: "filter (\<lambda>e. e = Call_transformPose) tl = []"
      using tl(2) by (auto simp: filter_empty_conv)
    show ?thesis
      using b by (simp add: initializeWrenchComm_def None Let_def case_prod_beta tl(1) f)
  qed
  have fail: "initializeWrenchComm w m end_effector sf gf topic key =
      (False, m, concat (replicate (nat (max_tf_attempts m)) ?fail) @ [Error_no_transform])"
    if new: "end_effector \<notin> set (manager_index m)"
      and none: "\<forall>k. int k < max_tf_attempts m \<longrightarrow> transformPose w k gf (identity_pose_in sf) = None"
  proof -
    have g: "getIndex m end_effector = None"
      using new by (simp add: getIndex_None)
    have "?loop = (max 0 (max_tf_attempts m), identity_pose_in sf,
         [] @ concat (replicate (nat (max_tf_attempts m - 0)) ?fail))"
      using none by (intro transform_loop_all_fail) auto
    then show ?thesis
      by (simp add: initializeWrenchComm_def g)
  qed
  have succ: "initializeWrenchComm w m end_effector sf gf topic key =
      add_comm w m end_effector sf gf topic key q (concat (replicate k ?fail) @ [Call_transformPose])"
    if new: "end_effector \<notin> set (manager_index m)"
      and ok: "int k < max_tf_attempts m \<and> transformPose w k gf (identity_pose_in sf) = Some q \<and>
         (\<forall>j<k. transformPose w j gf (identity_pose_in sf) = None)"
  proof -
    have g: "getIndex m end_effector = None"
      using new by (simp add: getIndex_None)
    have "?loop = (int k, q, [] @ concat (replicate (k - nat 0) ?fail) @ [Call_transformPose])"
      using ok by (intro transform_loop_first_success) auto
    then show ?thesis
      using ok by (simp add: initializeWrenchComm_def g)
  qed
  have dflt: "max_tf_attempts (WrenchManager None :: ('a, 'f) wrenchManager) = 5"
    by (simp add: WrenchManager_def)
  show ?thesis
  proof (intro conjI impI allI)
    show "length (filter (\<lambda>e. e = Call_transformPose)
        (snd (snd (initializeWrenchComm w m end_effector sf gf topic key)))) \<le> nat (max_tf_attempts m)"
      by (rule count)
  next
    assume "end_effector \<notin> set (manager_index m)"
      and "\<forall>k. int k < max_tf_attempts m \<longrightarrow> transformPose w k gf (identity_pose_in sf) = None"
    then show "initializeWrenchComm w m end_effector sf gf topic key =
        (False, m, concat (replicate (nat (max_tf_attempts m)) ?fail) @ [Error_no_transform])"
      by (rule fail)
  next
    assume "end_effector \<notin> set (manager_index m)"
      and "int k < max_tf_attempts m \<and> transformPose w k gf (identity_pose_in sf) = Some q \<and>
         (\<forall>j<k. transformPose w j gf (identity_pose_in sf) = None)"
    then show "initializeWrenchComm w m end_effector sf gf topic key =
        add_comm w m end_effector sf gf topic key q (concat (replicate k ?fail) @ [Call_transformPose])"
      by (rule succ)
  next
    assume a: "end_effector \<notin> set (manager_index m)"
      "int k < max_tf_attempts m \<and> transformPose w k gf (identity_pose_in sf) = Some q \<and>
         (\<forall>j<k. transformPose w j gf (identity_pose_in sf) = None)"
      and p: "parseMatrixData w key = None"
    show "initializeWrenchComm w m end_effector sf gf topic key =
        (False, m, concat (replicate k ?fail) @ [Call_transformPose, Error_missing_calibration])"
      by (simp add: succ [OF a] add_comm_def p)
  next
    fix C
    assume a: "end_effector \<notin> set (manager_index m)"
      "int k < max_tf_attempts m \<and> transformPose w k gf (identity_pose_in sf) = Some q \<and>
         (\<forall>j<k. transformPose w j gf (identity_pose_in sf) = None)"
      and p: "parseMatrixData w key = Some C \<and> (cols C \<noteq> 6 \<or> rows C \<noteq> 6)"
    show "initializeWrenchComm w m end_effector sf gf topic key =
        (False, m, concat (replicate k ?fail) @ [Call_transformPose, Error_not_6x6 (rows C) (cols C)])"
      using p by (auto simp: succ [OF a] add_comm_def)
  next
    fix C
    assume a: "end_effector \<notin> set (manager_index m)"
      "int k < max_tf_attempts m \<and> transformPose w k gf (identity_pose_in sf) = Some q \<and>
         (\<forall>j<k. transformPose w j gf (identity_pose_in sf) = None)"
      and p: "parseMatrixData w key = Some C \<and> cols C = 6 \<and> rows C = 6"
    show full: "initializeWrenchComm w m end_effector sf gf topic key =
        (True,
         m\<lparr>calibration_matrix := calibration_matrix m @ [C],
           manager_index := manager_index m @ [end_effector],
           sensor_frame := sensor_frame m @ [sf],
           sensor_to_gripping_point := sensor_to_gripping_point m @ [poseMsgToKDL w (ps_pose q)],
           measured_wrench := measured_wrench m @ [Wrench_Zero],
           ft_sub := ft_sub m @ [topic],
           gripping_frame := gripping_frame m @ [gf],
           processed_ft_pub := processed_ft_pub m @ [topic @ ''_converted'']\<rparr>,
         concat (replicate k ?fail) @ [Call_transformPose])"
      using p by (simp add: succ [OF a] add_comm_def)
    show "sensor_to_gripping_point (fst (snd (initializeWrenchComm w m end_effector sf gf topic key))) =
        sensor_to_gripping_point m @ [poseMsgToKDL w (ps_pose q)]"
      by (simp add: full)
  next
    show "max_tf_attempts (WrenchManager None :: ('a, 'f) wrenchManager) = 5"
      by (rule dflt)
  qed
qed


text \<open>
  C8 with the default bound of 5 on an empty registry. The resolver fails at attempts 0
  and 1 and would give a shift of 2, 3 and 4 units at attempts 2, 3 and 4: the call stops
  after three attempts and two sleeps, and the channel stores the shift of 2 units. With
  a resolver that always fails the call gives up after five attempts and five sleeps.
\<close>

theorem initializeWrenchComm_transform_retries_witness:
  "''left_arm'' \<notin> set (manager_index (WrenchManager None :: (int, int pose) wrenchManager)) \<and>
   max_tf_attempts (WrenchManager None :: (int, int pose) wrenchManager) = 5 \<and>
   transformPose varying_externals 0 ''left_grip'' (identity_pose_in ''left_sensor'') = None \<and>
   transformPose varying_externals 1 ''left_grip'' (identity_pose_in ''left_sensor'') = None \<and>
   map_option ps_pose (transformPose varying_externals 2 ''left_grip'' (identity_pose_in ''left_sensor'')) =
     Some \<lparr>pose_position = (0, 0, 2), pose_orientation = (0, 0, 0, 1)\<rparr> \<and>
   map_option ps_pose (transformPose varying_externals 3 ''left_grip'' (identity_pose_in ''left_sensor'')) =
     Some \<lparr>pose_position = (0, 0, 3), pose_orientation = (0, 0, 0, 1)\<rparr> \<and>
   parseMatrixData varying_externals ''left/sensor_calib'' = Some example_calib \<and>
   initializeWrenchComm varying_externals (WrenchManager None)
     ''left_arm'' ''left_sensor'' ''left_grip'' ''left_ft'' ''left/sensor_calib''
     = (True,
        \<lparr>max_tf_attempts = 5, manager_index = [''left_arm''], sensor_frame = [''left_sensor''],
         gripping_frame = [''left_grip''],
         sensor_to_gripping_point = [\<lparr>pose_position = (0, 0, 2), pose_orientation = (0, 0, 0, 1)\<rparr>],
         measured_wrench = [Wrench (0, 0, 0) (0, 0, 0)], calibration_matrix = [example_calib],
         ft_sub = [''left_ft''], processed_ft_pub = [''left_ft_converted'']\<rparr>,
        [Call_transformPose, Warn_tf_exception, Sleep (1 / 10),
         Call_transformPose, Warn_tf_exception, Sleep (1 / 10), Call_transformPose]) \<and>
   initializeWrenchComm (example_externals\<lparr>transformPose := (\<lambda>k target p. None)\<rparr>) (WrenchManager None)
     ''left_arm'' ''left_sensor'' ''left_grip'' ''left_ft'' ''left/sensor_calib''
     = (False, WrenchManager None,
        [Call_transformPose, Warn_tf_exception, Sleep (1 / 10),
         Call_transformPose, Warn_tf_exception, Sleep (1 / 10),
         Call_transformPose, Warn_tf_exception, Sleep (1 / 10),
         Call_transformPose, Warn_tf_exception, Sleep (1 / 10),
         Call_transformPose, Warn_tf_exception, Sleep (1 / 10), Error_no_transform])"
proof -
  let ?m = "WrenchManager None :: (int, int pose) wrenchManager"
  let ?q = "\<lparr>ps_header = \<lparr>stamp = 0, frame_id = ''left_grip''\<rparr>,
            ps_pose = \<lparr>pose_position = (0, 0, 2), pose_orientation = (0, 0, 0, 1)\<rparr>\<rparr> :: int poseStamped"
  let ?dead = "example_externals\<lparr>transformPose := (\<lambda>k target p. None)\<rparr>"
  have new: "''left_arm'' \<notin> set (manager_index ?m)"
    by (simp add: WrenchManager_def)
  have mx: "max_tf_attempts ?m = 5"
    by (simp add: WrenchManager_def)
  have l: "transformPose varying_externals 0 ''left_grip'' (identity_pose_in ''left_sensor'') = None"
      "transformPose varying_externals 1 ''left_grip'' (identity_pose_in ''left_sensor'') = None"
      "map_option ps_pose (transformPose varying_externals 2 ''left_grip'' (identity_pose_in ''left_sensor'')) =
         Some \<lparr>pose_position = (0, 0, 2), pose_orientation = (0, 0, 0, 1)\<rparr>"
      "map_option ps_pose (transformPose varying_externals 3 ''left_grip'' (identity_pose_in ''left_sensor'')) =
         Some \<lparr>pose_position = (0, 0, 3), pose_orientation = (0, 0, 0, 1)\<rparr>"
    by (simp_all add: varying_externals_def)
  have cal: "parseMatrixData varying_externals ''left/sensor_calib'' = Some example_calib"
    by (simp add: varying_externals_def example_externals_def)
  have dims: "parseMatrixData varying_externals ''left/sensor_calib'' = Some example_calib \<and>
      cols example_calib = 6 \<and> rows example_calib = 6"
    by (simp add: cal example_calib_def)
  have first: "int 2 < max_tf_attempts ?m \<and>
      transformPose varying_externals 2 ''left_grip'' (identity_pose_in ''left_sensor'') = Some ?q \<and>
      (\<forall>j<2. transformPose varying_externals j ''left_grip'' (identity_pose_in ''left_sensor'') = None)"
    by (simp add: mx varying_externals_def)
  have never: "\<forall>k. int k < max_tf_attempts ?m \<longrightarrow>
      transformPose ?dead k ''left_grip'' (identity_pose_in ''left_sensor'') = None"
    by simp
  note live = initializeWrenchComm_transform_retries [of varying_externals ?m "''left_arm''"
      "''left_sensor''" "''left_grip''" "''left_ft''" "''left/sensor_calib''" 2 ?q]
  note dead = initializeWrenchComm_transform_retries [of ?dead ?m "''left_arm''"
      "''left_sensor''" "''left_grip''" "''left_ft''" "''left/sensor_calib''"]
  have "initializeWrenchComm varying_externals ?m
      ''left_arm'' ''left_sensor'' ''left_grip'' ''left_ft'' ''left/sensor_calib'' =
      (True,
       ?m\<lparr>calibration_matrix := calibration_matrix ?m @ [example_calib],
         manager_index := manager_index ?m @ [''left_arm''],
         sensor_frame := sensor_frame ?m @ [''left_sensor''],
         sensor_to_gripping_point :=
           sensor_to_gripping_point ?m @ [poseMsgToKDL varying_externals (ps_pose ?q)],
         measured_wrench := measured_wrench ?m @ [Wrench_Zero],
         ft_sub := ft_sub ?m @ [''left_ft''],
         gripping_frame := gripping_frame ?m @ [''left_grip''],
         processed_ft_pub := processed_ft_pub ?m @ [''left_ft'' @ ''_converted'']\<rparr>,
       concat (replicate 2 [Call_transformPose, Warn_tf_exception, Sleep (1 / 10)]) @
       [Call_transformPose])"
    using live new first dims by blast
  also have "\<dots> = (True,
        \<lparr>max_tf_attempts = 5, manager_index = [''left_arm''], sensor_frame = [''left_sensor''],
         gripping_frame = [''left_grip''],
         sensor_to_gripping_point = [\<lparr>pose_position = (0, 0, 2), pose_orientation = (0, 0, 0, 1)\<rparr>],
         measured_wrench = [Wrench (0, 0, 0) (0, 0, 0)], calibration_matrix = [example_calib],
         ft_sub = [''left_ft''], processed_ft_pub = [''left_ft_converted'']\<rparr>,
        [Call_transformPose, Warn_tf_exception, Sleep (1 / 10),
         Call_transformPose, Warn_tf_exception, Sleep (1 / 10), Call_transformPose])"
    by (simp add: WrenchManager_def varying_externals_def example_externals_def Wrench_Zero_def
        numeral_2_eq_2)
  finally have r1: "initializeWrenchComm varying_externals ?m
      ''left_arm'' ''left_sensor'' ''left_grip'' ''left_ft'' ''left/sensor_calib'' =
      (True,
        \<lparr>max_tf_attempts = 5, manager_index = [''left_arm''], sensor_frame = [''left_sensor''],
         gripping_frame = [''left_grip''],
         sensor_to_gripping_point = [\<lparr>pose_position = (0, 0, 2), pose_orientation = (0, 0, 0, 1)\<rparr>],
         measured_wrench = [Wrench (0, 0, 0) (0, 0, 0)], calibration_matrix = [example_calib],
         ft_sub = [''left_ft''], processed_ft_pub = [''left_ft_converted'']\<rparr>,
        [Call_transformPose, Warn_tf_exception, Sleep (1 / 10),
         Call_transformPose, Warn_tf_exception, Sleep (1 / 10), Call_transformPose])" .
  have "initializeWrenchComm ?dead ?m
      ''left_arm'' ''left_sensor'' ''left_grip'' ''left_ft'' ''left/sensor_calib'' =
      (False, ?m,
       concat (replicate (nat (max_tf_attempts ?m))
         [Call_transformPose, Warn_tf_exception, Sleep (1 / 10)]) @ [Error_no_transform])"
    using dead new never by blast
  then have r2: "initializeWrenchComm ?dead ?m
      ''left_arm'' ''left_sensor'' ''left_grip'' ''left_ft'' ''left/sensor_calib'' =
      (False, ?m,
        [Call_transformPose, Warn_tf_exception, Sleep (1 / 10),
         Call_transformPose, Warn_tf_exception, Sleep (1 / 10),
         Call_transformPose, Warn_tf_exception, Sleep (1 / 10),
         Call_transformPose, Warn_tf_exception, Sleep (1 / 10),
         Call_transformPose, Warn_tf_exception, Sleep (1 / 10), Error_no_transform])"
    by (simp add: mx eval_nat_numeral)
  show ?thesis
    using new mx l cal r1 r2 by blast
qed

text \<open>
  Claim C5. In a well-formed registry, \<^verbatim>\<open>wrenchAtGrippingPoint\<close> returns no value for a
  name that is not registered (and neither does \<^verbatim>\<open>wrenchAtSensorPoint\<close>). For a
  registered name with index \<open>arm\<close>, where \<^verbatim>\<open>wrenchAtSensorPoint\<close> returns the cached
  wrench \<open>v\<close>, it returns the static transform of the channel applied to \<open>v\<close>, and
  publishes that wrench, stamped with the current time and the gripping frame, on the
  channel's topic.
\<close>

theorem wrenchAtGrippingPoint_frame:
  assumes "wm_inv m"
  shows "(end_effector \<notin> set (manager_index m) \<longrightarrow>
            wrenchAtGrippingPoint w m end_effector = Inr (None, []) \<and>
            wrenchAtSensorPoint m end_effector = Inr None) \<and>
         (end_effector \<in> set (manager_index m) \<longrightarrow>
            (\<exists>arm v. getIndex m end_effector = Some arm \<and> manager_index m ! arm = end_effector \<and>
               wrenchAtSensorPoint m end_effector = Inr (Some v) \<and>
               wrenchAtGrippingPoint w m end_effector =
                 Inr (Some (wrenchKDLToEigen
                        (frame_times_wrench w (sensor_to_gripping_point m ! arm) (wrenchEigenToKDL v))),
                      [Publish (processed_ft_pub m ! arm)
                         \<lparr>ws_header = \<lparr>stamp = time_now w, frame_id = gripping_frame m ! arm\<rparr>,
                          ws_wrench =
                            frame_times_wrench w (sensor_to_gripping_point m ! arm) (wrenchEigenToKDL v)\<rparr>])))"
proof (intro conjI impI)
  assume "end_effector \<notin> set (manager_index m)"
  then have g: "getIndex m end_effector = None"
    by (simp add: getIndex_None)
  show "wrenchAtGrippingPoint w m end_effector = Inr (None, [])"
    by (simp add: wrenchAtGrippingPoint_def g)
  show "wrenchAtSensorPoint m end_effector = Inr None"
    by (simp add: wrenchAtSensorPoint_def g)
next
  assume "end_effector \<in> set (manager_index m)"
  then obtain arm where g: "getIndex m end_effector = Some arm"
    by (rule getIndex_registered)
  note a = getIndex_Some [OF g]
  have len: "arm < length (sensor_to_gripping_point m)" "arm < length (measured_wrench m)"
      "arm < length (gripping_frame m)" "arm < length (processed_ft_pub m)"
    using assms a(1) by (simp_all add: wm_inv_def)
  let ?v = "wrenchKDLToEigen (measured_wrench m ! arm)"
  have s: "wrenchAtSensorPoint m end_effector = Inr (Some ?v)"
    using len by (simp add: wrenchAtSensorPoint_def g)
  have p: "wrenchAtGrippingPoint w m end_effector =
      Inr (Some (wrenchKDLToEigen
             (frame_times_wrench w (sensor_to_gripping_point m ! arm) (wrenchEigenToKDL ?v))),
           [Publish (processed_ft_pub m ! arm)
              \<lparr>ws_header = \<lparr>stamp = time_now w, frame_id = gripping_frame m ! arm\<rparr>,
               ws_wrench =
                 frame_times_wrench w (sensor_to_gripping_point m ! arm) (wrenchEigenToKDL ?v)\<rparr>])"
    using len by (simp add: wrenchAtGrippingPoint_def g Let_def wrenchKDLToMsg_def)
  show "\<exists>arm v. getIndex m end_effector = Some arm \<and> manager_index m ! arm = end_effector \<and>
      wrenchAtSensorPoint m end_effector = Inr (Some v) \<and>
      wrenchAtGrippingPoint w m end_effector =
        Inr (Some (wrenchKDLToEigen
               (frame_times_wrench w (sensor_to_gripping_point m ! arm) (wrenchEigenToKDL v))),
             [Publish (processed_ft_pub m ! arm)
                \<lparr>ws_header = \<lparr>stamp = time_now w, frame_id = gripping_frame m ! arm\<rparr>,
                 ws_wrench =
                   frame_times_wrench w (sensor_to_gripping_point m ! arm) (wrenchEigenToKDL v)\<rparr>])"
    using g a(2) s p by blast
qed

text \<open>
  C5 on the example after one sample: the transform shifts by one unit along z, so the
  torque \<open>(8, 10, 12)\<close> becomes \<open>(4, 12, 12)\<close> for the force \<open>(2, 4, 6)\<close>.
\<close>

theorem wrenchAtGrippingPoint_frame_witness:
  "wm_inv example_loaded \<and>
   ''nobody'' \<notin> set (manager_index example_loaded) \<and>
   wrenchAtGrippingPoint example_externals example_loaded ''nobody'' = Inr (None, []) \<and>
   ''left_arm'' \<in> set (manager_index example_loaded) \<and>
   wrenchAtSensorPoint example_loaded ''left_arm'' = Inr (Some (Vec6 2 4 6 8 10 12)) \<and>
   wrenchAtGrippingPoint example_externals example_loaded ''left_arm'' =
     Inr (Some (Vec6 2 4 6 4 12 12),
          [Publish ''left_ft_converted''
             \<lparr>ws_header = \<lparr>stamp = 42, frame_id = ''left_grip''\<rparr>,
              ws_wrench = Wrench (2, 4, 6) (4, 12, 12)\<rparr>])"
proof -
  have inv: "wm_inv example_loaded"
    by (simp add: wm_inv_def example_loaded_def example_manager_eq example_calib_def)
  have names: "''nobody'' \<notin> set (manager_index example_loaded)"
      "''left_arm'' \<in> set (manager_index example_loaded)"
    by (simp_all add: example_loaded_def example_manager_eq)
  note t = wrenchAtGrippingPoint_frame [OF inv, of _ example_externals]
  have r1: "wrenchAtGrippingPoint example_externals example_loaded ''nobody'' = Inr (None, [])"
    using t [of "''nobody''"] names(1) by blast
  obtain arm v where av: "getIndex example_loaded ''left_arm'' = Some arm"
      "wrenchAtSensorPoint example_loaded ''left_arm'' = Inr (Some v)"
      "wrenchAtGrippingPoint example_externals example_loaded ''left_arm'' =
         Inr (Some (wrenchKDLToEigen
                (frame_times_wrench example_externals (sensor_to_gripping_point example_loaded ! arm)
                   (wrenchEigenToKDL v))),
              [Publish (processed_ft_pub example_loaded ! arm)
                 \<lparr>ws_header = \<lparr>stamp = time_now example_externals,
                               frame_id = gripping_frame example_loaded ! arm\<rparr>,
                  ws_wrench = frame_times_wrench example_externals
                     (sensor_to_gripping_point example_loaded ! arm) (wrenchEigenToKDL v)\<rparr>])"
    using t [of "''left_arm''"] names(2) by blast
  have arm: "arm = 0"
    using av(1) by (simp add: getIndex_def example_loaded_def example_manager_eq)
  have v: "v = Vec6 2 4 6 8 10 12"
    using av(2) by (simp add: wrenchAtSensorPoint_def getIndex_def example_loaded_def example_manager_eq)
  have r2: "wrenchAtSensorPoint example_loaded ''left_arm'' = Inr (Some (Vec6 2 4 6 8 10 12))"
    using av(2) v by simp
  have r3: "wrenchAtGrippingPoint example_externals example_loaded ''left_arm'' =
     Inr (Some (Vec6 2 4 6 4 12 12),
          [Publish ''left_ft_converted''
             \<lparr>ws_header = \<lparr>stamp = 42, frame_id = ''left_grip''\<rparr>,
              ws_wrench = Wrench (2, 4, 6) (4, 12, 12)\<rparr>])"
    unfolding av(3) arm v
    by (simp add: example_loaded_def example_manager_eq example_externals_def example_shift_def)
  show ?thesis
    using inv names r1 r2 r3 by blast
qed

text \<open>
  Claim C4, as stated, on a registry in which \<open>left_arm\<close> and \<open>right_arm\<close> were registered
  with the same sensor frame: \<^verbatim>\<open>forceTorqueCB\<close> stops at the first matching frame, so a
  sample of that frame goes to \<open>left_arm\<close>, and \<open>right_arm\<close>, whose sensor frame matches
  too, still answers with its zero wrench and not with the calibrated sample.
\<close>

theorem sample_then_query_shared_frame_counterexample:
  "wm_inv shared_frame_manager \<and>
   getIndex shared_frame_manager ''right_arm'' = Some 1 \<and>
   frame_id (ws_header (example_sample ''ft_link'')) = sensor_frame shared_frame_manager ! 1 \<and>
   matrix_times_vec6 (calibration_matrix shared_frame_manager ! 1)
     (wrenchMsgToEigen (ws_wrench (example_sample ''ft_link''))) = Inr (Vec6 2 4 6 8 10 12) \<and>
   sample_then_query shared_frame_manager (example_sample ''ft_link'') ''right_arm''
     = Inr (Some (Vec6 0 0 0 0 0 0))"
proof -
  have f: "find_sensor (sensor_frame shared_frame_manager) ''ft_link'' 0 = 0"
    by (simp add: find_sensor.simps shared_frame_manager_eq)
  have g: "getIndex shared_frame_manager ''right_arm'' = Some 1"
    by (simp add: getIndex_def shared_frame_manager_eq)
  have c: "calibration_matrix shared_frame_manager ! 0 = example_calib"
      "calibration_matrix shared_frame_manager ! 1 = example_calib"
    by (simp_all add: shared_frame_manager_eq)
  have i: "forceTorqueCB shared_frame_manager (example_sample ''ft_link'') =
      Inr (shared_frame_manager\<lparr>measured_wrench :=
             [Wrench (2, 4, 6) (8, 10, 12), Wrench (0, 0, 0) (0, 0, 0)]\<rparr>, [])"
    using f by (simp add: forceTorqueCB_def Let_def example_sample_def)
      (simp add: shared_frame_manager_eq example_product [unfolded example_sample_def, simplified])
  have q: "sample_then_query shared_frame_manager (example_sample ''ft_link'') ''right_arm''
     = Inr (Some (Vec6 0 0 0 0 0 0))"
    by (simp add: sample_then_query_def i wrenchAtSensorPoint_def getIndex_def)
      (simp add: shared_frame_manager_eq)
  have fr: "frame_id (ws_header (example_sample ''ft_link'')) = sensor_frame shared_frame_manager ! 1"
    by (simp add: shared_frame_manager_eq example_sample_def)
  have p: "matrix_times_vec6 (calibration_matrix shared_frame_manager ! 1)
     (wrenchMsgToEigen (ws_wrench (example_sample ''ft_link''))) = Inr (Vec6 2 4 6 8 10 12)"
    by (simp only: c example_product)
  show ?thesis
    using wm_inv_examples(2) g fr p q by blast
qed

text \<open>
  Claim C4, amended. In a well-formed registry, for a registered end-effector whose
  channel is the first one with its sensor frame, and a sample of that frame:
  \<^verbatim>\<open>wrenchAtSensorPoint\<close> right after the sample is ingested succeeds and returns the
  product of the channel's calibration matrix with the raw sample, which is defined.
\<close>

theorem sample_then_query_calibrated:
  assumes "wm_inv m" and "getIndex m end_effector = Some arm"
    and "frame_id (ws_header msg) = sensor_frame m ! arm"
    and "\<forall>j<arm. sensor_frame m ! j \<noteq> frame_id (ws_header msg)"
  shows "\<exists>v. matrix_times_vec6 (calibration_matrix m ! arm) (wrenchMsgToEigen (ws_wrench msg)) = Inr v \<and>
             sample_then_query m msg end_effector = Inr (Some v)"
proof -
  note a = getIndex_Some [OF assms(2)]
  have len: "arm < length (sensor_frame m)" "arm < length (calibration_matrix m)"
      "arm < length (measured_wrench m)"
    using assms(1) a(1) by (simp_all add: wm_inv_def)
  have f: "find_sensor (sensor_frame m) (frame_id (ws_header msg)) 0 = int arm"
    using len(1) assms(3,4) by (intro find_sensor_first) auto
  have "rows (calibration_matrix m ! arm) = 6 \<and> cols (calibration_matrix m ! arm) = 6"
    using assms(1) len(2) by (simp add: wm_inv_def list_all_length)
  then obtain v where v: "matrix_times_vec6 (calibration_matrix m ! arm) (wrenchMsgToEigen (ws_wrench msg)) = Inr v"
    by (simp add: matrix_times_vec6_def)
  let ?m' = "m\<lparr>measured_wrench := (measured_wrench m)[arm := wrenchEigenToKDL v]\<rparr>"
  have i: "forceTorqueCB m msg = Inr (?m', [])"
    using f len v by (simp add: forceTorqueCB_def Let_def)
  have g: "getIndex ?m' end_effector = Some arm"
    using assms(2) by (simp add: getIndex_def)
  have "sample_then_query m msg end_effector = Inr (Some v)"
    using len(3) by (simp add: sample_then_query_def i wrenchAtSensorPoint_def g)
  then show ?thesis
    using v by blast
qed

text \<open>
  C4 on the example: the raw sample \<open>(1, 2, 3, 4, 5, 6)\<close> through the doubling matrix.
\<close>

theorem sample_then_query_calibrated_witness:
  "wm_inv example_manager \<and> getIndex example_manager ''left_arm'' = Some 0 \<and>
   frame_id (ws_header (example_sample ''left_sensor'')) = sensor_frame example_manager ! 0 \<and>
   matrix_times_vec6 (calibration_matrix example_manager ! 0)
     (wrenchMsgToEigen (ws_wrench (example_sample ''left_sensor''))) = Inr (Vec6 2 4 6 8 10 12) \<and>
   sample_then_query example_manager (example_sample ''left_sensor'') ''left_arm''
     = Inr (Some (Vec6 2 4 6 8 10 12))"
proof -
  have g: "getIndex example_manager ''left_arm'' = Some 0"
    by (simp add: getIndex_def example_manager_eq)
  have fr: "frame_id (ws_header (example_sample ''left_sensor'')) = sensor_frame example_manager ! 0"
    by (simp add: example_sample_def example_manager_eq)
  have first: "\<forall>j<0. sensor_frame example_manager ! j \<noteq> frame_id (ws_header (example_sample ''left_sensor''))"
    by simp
  have p: "matrix_times_vec6 (calibration_matrix example_manager ! 0)
     (wrenchMsgToEigen (ws_wrench (example_sample ''left_sensor''))) = Inr (Vec6 2 4 6 8 10 12)"
    by (simp add: example_manager_eq example_product)
  from sample_then_query_calibrated [OF wm_inv_examples(1) g fr first]
  have q: "sample_then_query example_manager (example_sample ''left_sensor'') ''left_arm''
     = Inr (Some (Vec6 2 4 6 8 10 12))"
    unfolding p by simp
  show ?thesis
    using wm_inv_examples(1) g fr p q by blast
qed

end
